theory Spec2Isabelle
  imports Complex_Main "HOL-Library.Word" "HOL-Library.Log_Nat"
begin

section \<open>Real-time drive monitoring: data model (realtime\_monitor.h)\<close>

text \<open>
  The monitoring engine of \<^verbatim>\<open>realtime_monitor.c\<close> keeps three globals: the
  context (device registry and alert log), the configuration and the initialised flag.
  Every C function is embedded as a function from the globals (and the values the
  environment supplies: tick counts, handles, sampled metrics) to its return value and the
  new globals.

  Conventions of the embedding:
  \<^item> \<^verbatim>\<open>uint32_t\<close> and \<^verbatim>\<open>uint64_t\<close> are words, so \<open>+\<close> wraps as in C;
  \<^item> a finite \<^verbatim>\<open>float\<close> is the rational number it denotes; an infinity or a NaN
    is \<open>None\<close>. The running average is computed as the source computes it, every
    operation rounded to binary32 (round to nearest, ties to even); comparisons are
    exact on floats as they are on rationals;
  \<^item> a \<^verbatim>\<open>const char*\<close> argument is a \<open>string option\<close>, \<open>None\<close> being the
    null pointer; a string holds the characters before the terminating NUL, and
    \<^verbatim>\<open>strcmp(a, b) == 0\<close> is equality of strings;
  \<^item> \<^verbatim>\<open>strncpy(dst, src, sizeof(dst) - 1)\<close> into a buffer whose last byte is NUL
    stores \<open>take (sizeof(dst) - 1) src\<close>;
  \<^item> \<^verbatim>\<open>MAX_PATH\<close> comes from a header outside the sources and is a parameter
    \<open>max_path\<close> of the functions that copy a path;
  \<^item> \<^verbatim>\<open>uprintf\<close> only writes to the log window and is left out.
\<close>

type_synonym uint32_t = "32 word"
type_synonym uint64_t = "64 word"
type_synonym cfloat = rat
type_synonym HANDLE = nat \<comment> \<open>\<open>0\<close> is the null handle\<close>

definition MONITOR_MAX_DRIVES :: nat where
  "MONITOR_MAX_DRIVES = 16"

definition MONITOR_UPDATE_INTERVAL :: uint32_t where
  "MONITOR_UPDATE_INTERVAL = 1000"

definition MONITOR_ALERT_THRESHOLD :: cfloat where
  "MONITOR_ALERT_THRESHOLD = 8 / 10"

definition MONITOR_CRITICAL_THRESHOLD :: cfloat where
  "MONITOR_CRITICAL_THRESHOLD = 9 / 10"

datatype monitor_metric_t =
    MONITOR_METRIC_TEMPERATURE
  | MONITOR_METRIC_READ_SPEED
  | MONITOR_METRIC_WRITE_SPEED
  | MONITOR_METRIC_ERROR_RATE
  | MONITOR_METRIC_POWER_CONSUMPTION
  | MONITOR_METRIC_VIBRATION
  | MONITOR_METRIC_ELECTROMAGNETIC
  | MONITOR_METRIC_CAPACITY_USAGE
  | MONITOR_METRIC_SECTOR_HEALTH

text \<open>The enumerators in declaration order: the values \<open>0 .. MONITOR_METRIC_MAX - 1\<close>
  that the loops \<^verbatim>\<open>for (i = 0; i < MONITOR_METRIC_MAX; i++)\<close> run through.\<close>

definition metric_order :: "monitor_metric_t list" where
  "metric_order =
     [MONITOR_METRIC_TEMPERATURE, MONITOR_METRIC_READ_SPEED, MONITOR_METRIC_WRITE_SPEED,
      MONITOR_METRIC_ERROR_RATE, MONITOR_METRIC_POWER_CONSUMPTION, MONITOR_METRIC_VIBRATION,
      MONITOR_METRIC_ELECTROMAGNETIC, MONITOR_METRIC_CAPACITY_USAGE,
      MONITOR_METRIC_SECTOR_HEALTH]"

definition MONITOR_METRIC_MAX :: nat where
  "MONITOR_METRIC_MAX = length metric_order"

text \<open>A \<^verbatim>\<open>float x[MONITOR_METRIC_MAX]\<close> array is a function from the metric kind.\<close>

record drive_monitor_data_t =
  drive_path :: string
  drive_name :: string
  is_monitoring :: bool
  is_healthy :: bool
  current_metrics :: "monitor_metric_t \<Rightarrow> cfloat"
  average_metrics :: "monitor_metric_t \<Rightarrow> cfloat option"
  max_metrics :: "monitor_metric_t \<Rightarrow> cfloat"
  min_metrics :: "monitor_metric_t \<Rightarrow> cfloat"
  last_update :: uint64_t
  error_count :: uint32_t
  warning_count :: uint32_t
  data_points :: uint32_t

record monitor_alert_t =
  alert_drive_path :: string
  metric :: monitor_metric_t
  current_value :: cfloat
  threshold_value :: cfloat
  alert_message :: string
  timestamp :: uint64_t
  is_critical :: bool
  is_acknowledged :: bool

record monitor_context_t =
  drives :: "drive_monitor_data_t list"
  alerts :: "monitor_alert_t list"
  drive_count :: uint32_t
  alert_count :: uint32_t
  ctx_is_monitoring :: bool
  monitor_thread :: HANDLE
  stop_event :: HANDLE
  start_time :: uint64_t
  last_scan_time :: uint64_t

record monitor_config_t =
  enable_temperature_monitoring :: bool
  enable_speed_monitoring :: bool
  enable_error_monitoring :: bool
  enable_power_monitoring :: bool
  enable_vibration_monitoring :: bool
  enable_em_monitoring :: bool
  enable_capacity_monitoring :: bool
  enable_sector_monitoring :: bool
  update_interval :: uint32_t
  warning_threshold :: cfloat
  critical_threshold :: cfloat
  auto_alert :: bool
  log_to_file :: bool
  log_file_path :: string

record monitor_state =
  g_monitor_context :: monitor_context_t
  g_monitor_config :: monitor_config_t
  g_monitor_initialized :: bool

subsection \<open>Zeroed storage\<close>

text \<open>What \<^verbatim>\<open>memset(p, 0, sizeof *p)\<close> and static zero initialisation leave behind:
  empty strings, \<open>FALSE\<close>, \<open>0\<close>, \<open>0.0f\<close>, and the first enumerator.\<close>

definition zero_drive :: drive_monitor_data_t where
  "zero_drive =
     \<lparr>drive_path = [], drive_name = [], is_monitoring = False, is_healthy = False,
      current_metrics = (\<lambda>_. 0), average_metrics = (\<lambda>_. Some 0),
      max_metrics = (\<lambda>_. 0), min_metrics = (\<lambda>_. 0),
      last_update = 0, error_count = 0, warning_count = 0, data_points = 0\<rparr>"

definition zero_alert :: monitor_alert_t where
  "zero_alert =
     \<lparr>alert_drive_path = [], metric = MONITOR_METRIC_TEMPERATURE, current_value = 0,
      threshold_value = 0, alert_message = [], timestamp = 0, is_critical = False,
      is_acknowledged = False\<rparr>"

definition zero_context :: monitor_context_t where
  "zero_context =
     \<lparr>drives = replicate MONITOR_MAX_DRIVES zero_drive,
      alerts = replicate (MONITOR_MAX_DRIVES * MONITOR_METRIC_MAX) zero_alert,
      drive_count = 0, alert_count = 0, ctx_is_monitoring = False, monitor_thread = 0,
      stop_event = 0, start_time = 0, last_scan_time = 0\<rparr>"

definition zero_config :: monitor_config_t where
  "zero_config =
     \<lparr>enable_temperature_monitoring = False, enable_speed_monitoring = False,
      enable_error_monitoring = False, enable_power_monitoring = False,
      enable_vibration_monitoring = False, enable_em_monitoring = False,
      enable_capacity_monitoring = False, enable_sector_monitoring = False,
      update_interval = 0, warning_threshold = 0, critical_threshold = 0,
      auto_alert = False, log_to_file = False, log_file_path = []\<rparr>"

text \<open>The globals at program start (\<^verbatim>\<open>= { 0 }\<close>, \<^verbatim>\<open>= FALSE\<close>).\<close>

definition initial_state :: monitor_state where
  "initial_state =
     \<lparr>g_monitor_context = zero_context, g_monitor_config = zero_config,
      g_monitor_initialized = False\<rparr>"

section \<open>Registry operations\<close>

text \<open>The loop shared by \<^verbatim>\<open>IsDriveBeingMonitored\<close>, \<^verbatim>\<open>StopDriveMonitoring\<close> and
  \<^verbatim>\<open>GetDriveHealthStatus\<close>:
  \<^verbatim>\<open>for (i = 0; i < drive_count; i++) if (strcmp(drives[i].drive_path, drive_path) == 0) ...\<close>
  leaves at the first index whose path matches. \<open>find_drive ds n p i\<close> runs it from
  index \<open>i\<close>.\<close>

function find_drive :: "drive_monitor_data_t list \<Rightarrow> nat \<Rightarrow> string \<Rightarrow> nat \<Rightarrow> nat option" where
  "find_drive ds n p i =
     (if i < n then (if drive_path (ds ! i) = p then Some i else find_drive ds n p (i + 1))
      else None)"
  by pat_completeness auto
termination
  by (relation "measure (\<lambda>(ds, n, p, i). n - i)") auto

declare find_drive.simps [simp del]

definition IsDriveBeingMonitored :: "string option \<Rightarrow> monitor_state \<Rightarrow> bool" where
  "IsDriveBeingMonitored drive_path' s =
     (case drive_path' of
        None \<Rightarrow> False
      | Some p \<Rightarrow>
          if \<not> g_monitor_initialized s then False
          else let ctx = g_monitor_context s in
            (case find_drive (drives ctx) (unat (drive_count ctx)) p 0 of
               Some i \<Rightarrow> is_monitoring (drives ctx ! i)
             | None \<Rightarrow> False))"

text \<open>The record \<^verbatim>\<open>StartDriveMonitoring\<close> writes into a free slot: the slot is
  zeroed, path and name are copied (truncated to the buffer), and every metric gets
  current \<open>0\<close>, average \<open>0\<close>, maximum \<open>0\<close> and minimum \<open>1000\<close>.\<close>

definition new_drive_data :: "nat \<Rightarrow> uint64_t \<Rightarrow> string \<Rightarrow> drive_monitor_data_t" where
  "new_drive_data max_path tick p =
     zero_drive
       \<lparr>drive_path := take (max_path - 1) p,
        drive_name := take (64 - 1) p,
        is_monitoring := True,
        is_healthy := True,
        last_update := tick,
        current_metrics := (\<lambda>_. 0),
        average_metrics := (\<lambda>_. Some 0),
        max_metrics := (\<lambda>_. 0),
        min_metrics := (\<lambda>_. 1000)\<rparr>"

text \<open>\<^verbatim>\<open>StartDriveMonitoring\<close>. \<open>tick\<close> is the value of \<^verbatim>\<open>GetTickCount64()\<close>,
  \<open>new_thread\<close> the handle \<^verbatim>\<open>CreateThread\<close> returns (\<open>0\<close> when it fails).\<close>

definition StartDriveMonitoring ::
  "nat \<Rightarrow> uint64_t \<Rightarrow> HANDLE \<Rightarrow> string option \<Rightarrow> monitor_state \<Rightarrow> bool \<times> monitor_state" where
  "StartDriveMonitoring max_path tick new_thread drive_path' s =
     (if \<not> g_monitor_initialized s then (False, s)
      else let ctx = g_monitor_context s in
        (case drive_path' of
           None \<Rightarrow>
             (True, s\<lparr>g_monitor_context :=
                ctx\<lparr>drives :=
                  map (\<lambda>d. d\<lparr>is_monitoring := True\<rparr>) (take (unat (drive_count ctx)) (drives ctx))
                  @ drop (unat (drive_count ctx)) (drives ctx)\<rparr>\<rparr>)
         | Some p \<Rightarrow>
             if IsDriveBeingMonitored (Some p) s then (True, s)
             else if MONITOR_MAX_DRIVES \<le> unat (drive_count ctx) then (False, s)
             else
               let drive_index = unat (drive_count ctx);
                   ctx1 = ctx\<lparr>drives := (drives ctx)[drive_index := new_drive_data max_path tick p],
                             drive_count := drive_count ctx + 1\<rparr>
               in if \<not> ctx_is_monitoring ctx1 then
                    (if new_thread = 0
                     then (False, s\<lparr>g_monitor_context :=
                             ctx1\<lparr>ctx_is_monitoring := False, monitor_thread := new_thread\<rparr>\<rparr>)
                     else (True, s\<lparr>g_monitor_context :=
                             ctx1\<lparr>ctx_is_monitoring := True, monitor_thread := new_thread\<rparr>\<rparr>))
                  else (True, s\<lparr>g_monitor_context := ctx1\<rparr>)))"

text \<open>\<^verbatim>\<open>StopDriveMonitoring\<close>. With a null path every registered drive is deactivated
  and a running monitor thread is stopped and its handle closed; with a path, the first
  record with that path is deactivated.\<close>

definition StopDriveMonitoring :: "string option \<Rightarrow> monitor_state \<Rightarrow> bool \<times> monitor_state" where
  "StopDriveMonitoring drive_path' s =
     (if \<not> g_monitor_initialized s then (False, s)
      else let ctx = g_monitor_context s in
        (case drive_path' of
           None \<Rightarrow>
             let ctx1 = ctx\<lparr>drives :=
                   map (\<lambda>d. d\<lparr>is_monitoring := False\<rparr>) (take (unat (drive_count ctx)) (drives ctx))
                   @ drop (unat (drive_count ctx)) (drives ctx)\<rparr>;
                 ctx2 = (if ctx_is_monitoring ctx1
                         then (let ctx' = ctx1\<lparr>ctx_is_monitoring := False\<rparr>
                               in if monitor_thread ctx' \<noteq> 0 then ctx'\<lparr>monitor_thread := 0\<rparr>
                                  else ctx')
                         else ctx1)
             in (True, s\<lparr>g_monitor_context := ctx2\<rparr>)
         | Some p \<Rightarrow>
             (case find_drive (drives ctx) (unat (drive_count ctx)) p 0 of
                Some i \<Rightarrow>
                  (True, s\<lparr>g_monitor_context :=
                     ctx\<lparr>drives := (drives ctx)[i := (drives ctx ! i)\<lparr>is_monitoring := False\<rparr>]\<rparr>\<rparr>)
              | None \<Rightarrow> (False, s))))"

text \<open>\<^verbatim>\<open>GetDriveHealthStatus\<close>: a copy of the first record with the path. The
  out-parameter \<open>data\<close> is the caller's buffer (\<open>None\<close> a null pointer).\<close>

definition GetDriveHealthStatus ::
  "string option \<Rightarrow> drive_monitor_data_t option \<Rightarrow> monitor_state
     \<Rightarrow> bool \<times> drive_monitor_data_t option" where
  "GetDriveHealthStatus drive_path' data s =
     (case (drive_path', data) of
        (Some p, Some buf) \<Rightarrow>
          if \<not> g_monitor_initialized s then (False, data)
          else let ctx = g_monitor_context s in
            (case find_drive (drives ctx) (unat (drive_count ctx)) p 0 of
               Some i \<Rightarrow> (True, Some (drives ctx ! i))
             | None \<Rightarrow> (False, data))
      | _ \<Rightarrow> (False, data))"

section \<open>Alert log\<close>

definition AcknowledgeAlert :: "uint32_t \<Rightarrow> monitor_state \<Rightarrow> bool \<times> monitor_state" where
  "AcknowledgeAlert alert_index s =
     (let ctx = g_monitor_context s in
      if \<not> g_monitor_initialized s \<or> alert_count ctx \<le> alert_index then (False, s)
      else
        (True, s\<lparr>g_monitor_context :=
           ctx\<lparr>alerts := (alerts ctx)[unat alert_index :=
                   (alerts ctx ! unat alert_index)\<lparr>is_acknowledged := True\<rparr>]\<rparr>\<rparr>))"

definition ClearAllAlerts :: "monitor_state \<Rightarrow> bool \<times> monitor_state" where
  "ClearAllAlerts s =
     (if \<not> g_monitor_initialized s then (False, s)
      else
        (True, s\<lparr>g_monitor_context :=
           (g_monitor_context s)
             \<lparr>alert_count := 0,
              alerts := replicate (MONITOR_MAX_DRIVES * MONITOR_METRIC_MAX) zero_alert\<rparr>\<rparr>))"

text \<open>\<^verbatim>\<open>CreateAlert\<close>. All eight fields of the slot at index \<open>alert_count\<close> are
  written; \<open>tick\<close> is the value of \<^verbatim>\<open>GetTickCount64()\<close>. The notification
  (\<^verbatim>\<open>SendAlertNotification\<close>) only prints.\<close>

definition CreateAlert ::
  "nat \<Rightarrow> uint64_t \<Rightarrow> string option \<Rightarrow> monitor_metric_t \<Rightarrow> cfloat \<Rightarrow> cfloat
     \<Rightarrow> string option \<Rightarrow> bool \<Rightarrow> monitor_state \<Rightarrow> bool \<times> monitor_state" where
  "CreateAlert max_path tick drive_path' metric' current_value' threshold_value' message
       is_critical' s =
     (case (drive_path', message) of
        (Some p, Some msg) \<Rightarrow>
          if \<not> g_monitor_initialized s then (False, s)
          else let ctx = g_monitor_context s in
            if MONITOR_MAX_DRIVES * MONITOR_METRIC_MAX \<le> unat (alert_count ctx) then (False, s)
            else
              let alert =
                    \<lparr>alert_drive_path = take (max_path - 1) p,
                     metric = metric',
                     current_value = current_value',
                     threshold_value = threshold_value',
                     alert_message = take (256 - 1) msg,
                     timestamp = tick,
                     is_critical = is_critical',
                     is_acknowledged = False\<rparr>
              in (True, s\<lparr>g_monitor_context :=
                     ctx\<lparr>alerts := (alerts ctx)[unat (alert_count ctx) := alert],
                         alert_count := alert_count ctx + 1\<rparr>\<rparr>)
      | _ \<Rightarrow> (False, s))"

section \<open>Threshold policy\<close>

fun GetMetricThreshold :: "monitor_metric_t \<Rightarrow> cfloat" where
  "GetMetricThreshold MONITOR_METRIC_TEMPERATURE = 60"
| "GetMetricThreshold MONITOR_METRIC_READ_SPEED = 5"
| "GetMetricThreshold MONITOR_METRIC_WRITE_SPEED = 5"
| "GetMetricThreshold MONITOR_METRIC_ERROR_RATE = 5 / 10"
| "GetMetricThreshold MONITOR_METRIC_POWER_CONSUMPTION = 5"
| "GetMetricThreshold MONITOR_METRIC_VIBRATION = 3"
| "GetMetricThreshold MONITOR_METRIC_ELECTROMAGNETIC = 8 / 10"
| "GetMetricThreshold MONITOR_METRIC_CAPACITY_USAGE = 90"
| "GetMetricThreshold MONITOR_METRIC_SECTOR_HEALTH = 80"

definition IsMetricCritical :: "monitor_metric_t \<Rightarrow> cfloat \<Rightarrow> monitor_state \<Rightarrow> bool" where
  "IsMetricCritical metric' v s =
     (let threshold = GetMetricThreshold metric'
      in threshold * critical_threshold (g_monitor_config s) \<le> v)"

definition IsMetricWarning :: "monitor_metric_t \<Rightarrow> cfloat \<Rightarrow> monitor_state \<Rightarrow> bool" where
  "IsMetricWarning metric' v s =
     (let threshold = GetMetricThreshold metric'
      in threshold * warning_threshold (g_monitor_config s) \<le> v)"

text \<open>The severity \<^verbatim>\<open>CheckForAlerts\<close> assigns to one metric: the
  \<^verbatim>\<open>if (IsMetricCritical ...) ... else if (IsMetricWarning ...) ...\<close> of its loop body.\<close>

datatype severity = NoAlert | Warning | Critical

definition evaluate_metric :: "monitor_metric_t \<Rightarrow> cfloat \<Rightarrow> monitor_state \<Rightarrow> severity" where
  "evaluate_metric i v s =
     (if IsMetricCritical i v s then Critical
      else if IsMetricWarning i v s then Warning
      else NoAlert)"

text \<open>One iteration of the loop of \<^verbatim>\<open>CheckForAlerts\<close>, on the drive record and the
  globals. \<open>ticks i\<close> is the tick count read by the \<^verbatim>\<open>CreateAlert\<close> call for metric
  \<open>i\<close>. The result of \<^verbatim>\<open>CreateAlert\<close> is ignored, as in the source.\<close>

definition check_metric ::
  "nat \<Rightarrow> (monitor_metric_t \<Rightarrow> uint64_t) \<Rightarrow> drive_monitor_data_t \<times> monitor_state
     \<Rightarrow> monitor_metric_t \<Rightarrow> drive_monitor_data_t \<times> monitor_state" where
  "check_metric max_path ticks ds i =
     (let d = fst ds; s = snd ds in
      case evaluate_metric i (current_metrics d i) s of
        Critical \<Rightarrow>
          (d\<lparr>error_count := error_count d + 1\<rparr>,
           snd (CreateAlert max_path (ticks i) (Some (drive_path d)) i (current_metrics d i)
                  (GetMetricThreshold i) (Some ''Critical threshold exceeded'') True s))
      | Warning \<Rightarrow>
          (d\<lparr>warning_count := warning_count d + 1\<rparr>,
           snd (CreateAlert max_path (ticks i) (Some (drive_path d)) i (current_metrics d i)
                  (GetMetricThreshold i) (Some ''Warning threshold exceeded'') False s))
      | NoAlert \<Rightarrow> (d, s))"

definition CheckForAlerts ::
  "nat \<Rightarrow> (monitor_metric_t \<Rightarrow> uint64_t) \<Rightarrow> drive_monitor_data_t option \<Rightarrow> monitor_state
     \<Rightarrow> bool \<times> drive_monitor_data_t option \<times> monitor_state" where
  "CheckForAlerts max_path ticks data s =
     (case data of
        None \<Rightarrow> (False, None, s)
      | Some d \<Rightarrow>
          let ds = foldl (check_metric max_path ticks) (d, s) metric_order
          in (True, Some (fst ds), snd ds))"

section \<open>Aggregation\<close>

text \<open>Rounding to binary32. \<open>floor_log2 x\<close> is the exponent of a positive \<open>x\<close>, the
  integer \<open>e\<close> with \<open>2^e \<le> x < 2^(e+1)\<close>; \<open>round_half_even\<close> rounds to the nearest
  integer, ties to the even one. \<open>binary32_round x\<close> is the binary32 number nearest to
  \<open>x\<close>: 24 significant bits, exponents from \<open>-126\<close> (below which the spacing stays
  \<open>2^-149\<close>), and \<open>None\<close>, an infinity, when the rounded magnitude reaches \<open>2^128\<close>.\<close>

definition floor_log2 :: "rat \<Rightarrow> int" where
  "floor_log2 x = (if 1 \<le> x then bitlen \<lfloor>x\<rfloor> - 1 else - bitlen (\<lceil>1 / x\<rceil> - 1))"

definition round_half_even :: "rat \<Rightarrow> int" where
  "round_half_even x =
     (let f = \<lfloor>x\<rfloor>; d = x - of_int f
      in if d < 1 / 2 then f else if 1 / 2 < d then f + 1 else if even f then f else f + 1)"

definition binary32_round :: "rat \<Rightarrow> cfloat option" where
  "binary32_round x =
     (if x = 0 then Some 0
      else let e = max (floor_log2 \<bar>x\<bar>) (- 126);
               ulp = 2 powi (e - 23);
               r = of_int (round_half_even (x / ulp)) * ulp
           in if 2 ^ 128 \<le> \<bar>r\<bar> then None else Some r)"

text \<open>\<^verbatim>\<open>(average * data_points + value) / (data_points + 1)\<close> on floats: the counter
  is converted to \<^verbatim>\<open>float\<close> (rounded from \<open>2^24\<close> on), the product, the sum and
  the quotient are each rounded, and \<^verbatim>\<open>data_points + 1\<close> is computed in
  \<^verbatim>\<open>uint32_t\<close> and wraps. A division by zero gives an infinity or a NaN, and an
  average that is an infinity or a NaN stays one. The value \<open>v\<close> is a binary32
  number.\<close>

definition running_average :: "cfloat option \<Rightarrow> uint32_t \<Rightarrow> cfloat \<Rightarrow> cfloat option" where
  "running_average avg n v =
     (case avg of
        None \<Rightarrow> None
      | Some a \<Rightarrow>
     (case binary32_round (of_nat (unat n)) of
        None \<Rightarrow> None
      | Some cnt \<Rightarrow>
     (case binary32_round (a * cnt) of
        None \<Rightarrow> None
      | Some pr \<Rightarrow>
     (case binary32_round (pr + v) of
        None \<Rightarrow> None
      | Some numer \<Rightarrow>
     (case binary32_round (of_nat (unat (n + 1))) of
        None \<Rightarrow> None
      | Some den \<Rightarrow> if den = 0 then None else binary32_round (numer / den))))))"

text \<open>One iteration of the update loop of \<^verbatim>\<open>UpdateDriveMetrics\<close>.\<close>

definition update_metric ::
  "(monitor_metric_t \<Rightarrow> cfloat) \<Rightarrow> drive_monitor_data_t \<Rightarrow> monitor_metric_t
     \<Rightarrow> drive_monitor_data_t" where
  "update_metric new_metrics d i =
     d\<lparr>current_metrics := (current_metrics d)(i := new_metrics i),
       average_metrics :=
         (average_metrics d)(i := running_average (average_metrics d i) (data_points d) (new_metrics i)),
       max_metrics :=
         (if max_metrics d i < new_metrics i then (max_metrics d)(i := new_metrics i)
          else max_metrics d),
       min_metrics :=
         (if new_metrics i < min_metrics d i then (min_metrics d)(i := new_metrics i)
          else min_metrics d)\<rparr>"

text \<open>\<^verbatim>\<open>UpdateDriveMetrics\<close>. \<open>new_metrics\<close> is the local array after the collectors
  have run: the sampled value of every enabled metric, and whatever the stack held for a
  disabled one. \<open>current_time\<close> is the tick count read on entry. Writing the log file
  (\<^verbatim>\<open>LogMonitoringData\<close>) does not touch the globals. The record is passed in and
  returned; when it is a slot of the registry the caller stores it back, which is sound
  because nothing on the way reads or writes \<open>drives\<close>.\<close>

definition UpdateDriveMetrics ::
  "nat \<Rightarrow> uint64_t \<Rightarrow> (monitor_metric_t \<Rightarrow> uint64_t) \<Rightarrow> (monitor_metric_t \<Rightarrow> cfloat)
     \<Rightarrow> string option \<Rightarrow> drive_monitor_data_t option \<Rightarrow> monitor_state
     \<Rightarrow> bool \<times> drive_monitor_data_t option \<times> monitor_state" where
  "UpdateDriveMetrics max_path current_time ticks new_metrics drive_path' data s =
     (case (drive_path', data) of
        (Some p, Some d) \<Rightarrow>
          let d1 = foldl (update_metric new_metrics) d metric_order;
              d2 = d1\<lparr>data_points := data_points d1 + 1, last_update := current_time\<rparr>;
              r = CheckForAlerts max_path ticks (Some d2) s
          in (True, fst (snd r), snd (snd r))
      | _ \<Rightarrow> (False, data, s))"

text \<open>A sample is what one call of \<^verbatim>\<open>UpdateDriveMetrics\<close> takes from its
  environment: the tick count on entry, the tick counts of its alerts, and the metric
  values. \<open>run_updates\<close> applies the samples in order to a drive record and the globals.\<close>

type_synonym sample = "uint64_t \<times> (monitor_metric_t \<Rightarrow> uint64_t) \<times> (monitor_metric_t \<Rightarrow> cfloat)"

definition sample_values :: "sample \<Rightarrow> monitor_metric_t \<Rightarrow> cfloat" where
  "sample_values u = snd (snd u)"

fun run_updates ::
  "nat \<Rightarrow> sample list \<Rightarrow> drive_monitor_data_t \<times> monitor_state
     \<Rightarrow> drive_monitor_data_t \<times> monitor_state" where
  "run_updates max_path [] ds = ds"
| "run_updates max_path (u # us) ds =
     (let r = UpdateDriveMetrics max_path (fst u) (fst (snd u)) (sample_values u)
                (Some (drive_path (fst ds))) (Some (fst ds)) (snd ds)
      in case fst (snd r) of
           Some d' \<Rightarrow> run_updates max_path us (d', snd (snd r))
         | None \<Rightarrow> run_updates max_path us (fst ds, snd (snd r)))"

section \<open>Engine lifecycle\<close>

definition default_config :: monitor_config_t where
  "default_config =
     zero_config
       \<lparr>enable_temperature_monitoring := True,
        enable_speed_monitoring := True,
        enable_error_monitoring := True,
        enable_power_monitoring := True,
        enable_vibration_monitoring := False,
        enable_em_monitoring := False,
        enable_capacity_monitoring := True,
        enable_sector_monitoring := True,
        update_interval := MONITOR_UPDATE_INTERVAL,
        warning_threshold := MONITOR_ALERT_THRESHOLD,
        critical_threshold := MONITOR_CRITICAL_THRESHOLD,
        auto_alert := True,
        log_to_file := False,
        log_file_path := ''rufus_monitor.log''\<rparr>"

text \<open>\<^verbatim>\<open>InitRealTimeMonitor\<close>. \<open>tick\<close> is the tick count, \<open>new_event\<close> the handle
  \<^verbatim>\<open>CreateEvent\<close> returns (\<open>0\<close> when it fails).\<close>

definition InitRealTimeMonitor ::
  "uint64_t \<Rightarrow> HANDLE \<Rightarrow> monitor_config_t option \<Rightarrow> monitor_state \<Rightarrow> bool \<times> monitor_state" where
  "InitRealTimeMonitor tick new_event config s =
     (if g_monitor_initialized s then (True, s)
      else
        let cfg = (case config of None \<Rightarrow> default_config | Some c \<Rightarrow> c);
            ctx = zero_context\<lparr>ctx_is_monitoring := False, start_time := tick,
                    stop_event := new_event\<rparr>;
            s1 = s\<lparr>g_monitor_config := cfg, g_monitor_context := ctx\<rparr>
        in if new_event = 0 then (False, s1)
           else (True, s1\<lparr>g_monitor_initialized := True\<rparr>))"

definition CleanupRealTimeMonitor :: "monitor_state \<Rightarrow> monitor_state" where
  "CleanupRealTimeMonitor s =
     (if g_monitor_initialized s then
        let s1 = snd (StopDriveMonitoring None s);
            s2 = (if stop_event (g_monitor_context s1) \<noteq> 0
                  then s1\<lparr>g_monitor_context := (g_monitor_context s1)\<lparr>stop_event := 0\<rparr>\<rparr>
                  else s1)
        in s2\<lparr>g_monitor_context := zero_context, g_monitor_initialized := False\<rparr>
      else s)"

section \<open>State invariant and registry membership\<close>

text \<open>What holds of the globals in every state the program can be in: the two arrays have
  their declared sizes, the two counters stay within them, and an engine that is not
  initialised has an empty registry and an empty alert log (the context is zeroed at
  program start, by \<^verbatim>\<open>InitRealTimeMonitor\<close> and by \<^verbatim>\<open>CleanupRealTimeMonitor\<close>).\<close>

definition monitor_inv :: "monitor_state \<Rightarrow> bool" where
  "monitor_inv s =
     (let ctx = g_monitor_context s in
      length (drives ctx) = MONITOR_MAX_DRIVES \<and>
      length (alerts ctx) = MONITOR_MAX_DRIVES * MONITOR_METRIC_MAX \<and>
      unat (drive_count ctx) \<le> MONITOR_MAX_DRIVES \<and>
      unat (alert_count ctx) \<le> MONITOR_MAX_DRIVES * MONITOR_METRIC_MAX \<and>
      (g_monitor_initialized s \<or> (drive_count ctx = 0 \<and> alert_count ctx = 0)))"

text \<open>A path is in the registry when one of the first \<open>drive_count\<close> records carries it.\<close>

definition path_in_registry :: "string \<Rightarrow> monitor_state \<Rightarrow> bool" where
  "path_in_registry p s =
     (\<exists>i \<in> {0 ..< unat (drive_count (g_monitor_context s))}.
        drive_path (drives (g_monitor_context s) ! i) = p)"

section \<open>Health prediction (usb\_health\_predictor.c)\<close>

definition HEALTH_DATA_POINTS_MAX :: nat where
  "HEALTH_DATA_POINTS_MAX = 1000"

definition HEALTH_CRITICAL_THRESHOLD :: cfloat where
  "HEALTH_CRITICAL_THRESHOLD = 8 / 10"

definition HEALTH_WARNING_THRESHOLD :: cfloat where
  "HEALTH_WARNING_THRESHOLD = 6 / 10"

datatype health_algorithm_t =
    HEALTH_ALGO_NEURAL_NETWORK
  | HEALTH_ALGO_RANDOM_FOREST
  | HEALTH_ALGO_SVM
  | HEALTH_ALGO_BAYESIAN

record usb_health_metrics_t =
  total_writes :: uint64_t
  total_reads :: uint64_t
  hm_error_count :: uint64_t
  retry_count :: uint64_t
  bad_sectors :: uint64_t
  write_speed_avg :: cfloat
  read_speed_avg :: cfloat
  temperature_avg :: cfloat
  power_cycles :: uint32_t
  hours_used :: uint32_t
  hm_timestamp :: uint64_t

record usb_health_prediction_t =
  failure_probability :: cfloat
  days_remaining :: uint32_t
  algorithm_used :: health_algorithm_t
  recommendation :: string
  prediction_is_critical :: bool
  prediction_is_warning :: bool

record usb_health_context_t =
  metrics :: "usb_health_metrics_t list"
  metrics_count :: uint32_t
  drive_serial :: uint64_t
  drive_model :: string
  drive_manufacturer :: string
  first_seen :: uint64_t
  last_updated :: uint64_t

text \<open>\<^verbatim>\<open>CalculateHealthScore\<close>; the argument is a pointer, \<open>None\<close> when null. The two
  divisions are guarded by \<^verbatim>\<open>total_writes > 0\<close>.\<close>

definition CalculateHealthScore :: "usb_health_metrics_t option \<Rightarrow> cfloat" where
  "CalculateHealthScore metrics' =
     (case metrics' of
        None \<Rightarrow> 0
      | Some m \<Rightarrow>
          let score = 1;
              score = (if 0 < total_writes m
                       then let error_ratio = of_nat (unat (hm_error_count m)) / of_nat (unat (total_writes m))
                            in score - error_ratio * (3 / 10)
                       else score);
              score = (if 0 < total_writes m
                       then let retry_ratio = of_nat (unat (retry_count m)) / of_nat (unat (total_writes m))
                            in score - retry_ratio * (2 / 10)
                       else score);
              score = (if 0 < bad_sectors m then score - 4 / 10 else score);
              score = (if 0 < write_speed_avg m \<and> 0 < read_speed_avg m
                       then let speed_ratio = (write_speed_avg m + read_speed_avg m) / (2 * 20)
                            in (if speed_ratio < 5 / 10 then score - 2 / 10 else score)
                       else score);
              score = (if 10000 < hours_used m then score - 1 / 10 else score);
              score = (if score < 0 then 0 else score);
              score = (if 1 < score then 1 else score)
          in score)"

definition EstimateDaysRemaining :: "usb_health_metrics_t option \<Rightarrow> uint32_t" where
  "EstimateDaysRemaining metrics' =
     (let health_score = CalculateHealthScore metrics';
          base_days = 365
      in if 8 / 10 < health_score then base_days * 2
         else if 6 / 10 < health_score then base_days
         else if 4 / 10 < health_score then base_days div 2
         else if 2 / 10 < health_score then base_days div 4
         else 30)"

text \<open>\<^verbatim>\<open>LoadUSBHealthData\<close> reads the context from the data file that the first
  character of the path selects. The file system is the parameter \<open>read_file\<close>: the
  context read for a path, or \<open>None\<close> when the file cannot be opened or read in full.
  The result \<open>None\<close> is the return value \<open>FALSE\<close>.\<close>

definition LoadUSBHealthData ::
  "(string \<Rightarrow> usb_health_context_t option) \<Rightarrow> string option \<Rightarrow> usb_health_context_t option" where
  "LoadUSBHealthData read_file drive_path' =
     (case drive_path' of None \<Rightarrow> None | Some p \<Rightarrow> read_file p)"

text \<open>\<^verbatim>\<open>PredictUSBHealth\<close>. \<open>nn\<close> stands for \<^verbatim>\<open>PredictWithNeuralNetwork\<close> on the
  global network (its weights are random and it uses \<^verbatim>\<open>expf\<close>); \<open>prediction\<close> is
  the caller's buffer, \<open>None\<close> a null pointer. A loaded context whose
  \<^verbatim>\<open>metrics_count\<close> exceeds the array makes the function read past the end of
  \<^verbatim>\<open>metrics\<close>; that outcome is \<open>None\<close>.\<close>

definition PredictUSBHealth ::
  "(string \<Rightarrow> usb_health_context_t option) \<Rightarrow> (usb_health_metrics_t \<Rightarrow> cfloat) \<Rightarrow> string option
     \<Rightarrow> usb_health_prediction_t option \<Rightarrow> (bool \<times> usb_health_prediction_t option) option" where
  "PredictUSBHealth read_file nn drive_path' prediction =
     (case (drive_path', prediction) of
        (Some p, Some buf) \<Rightarrow>
          (case LoadUSBHealthData read_file (Some p) of
             None \<Rightarrow>
               Some (True, Some
                 \<lparr>failure_probability = 1 / 10,
                  days_remaining = 365,
                  algorithm_used = HEALTH_ALGO_NEURAL_NETWORK,
                  recommendation = ''No historical data available. Drive appears healthy.'',
                  prediction_is_critical = False,
                  prediction_is_warning = False\<rparr>)
           | Some context \<Rightarrow>
               if metrics_count context = 0 then
                 Some (True, Some
                   \<lparr>failure_probability = 1 / 10,
                    days_remaining = 365,
                    algorithm_used = HEALTH_ALGO_NEURAL_NETWORK,
                    recommendation = ''No metrics available. Drive appears healthy.'',
                    prediction_is_critical = False,
                    prediction_is_warning = False\<rparr>)
               else if HEALTH_DATA_POINTS_MAX < unat (metrics_count context)
                       \<or> length (metrics context) < unat (metrics_count context) then None
               else
                 let recent_metrics = metrics context ! (unat (metrics_count context) - 1);
                     health_score = CalculateHealthScore (Some recent_metrics);
                     probability = nn recent_metrics;
                     critical = (HEALTH_CRITICAL_THRESHOLD \<le> probability);
                     warning = (HEALTH_WARNING_THRESHOLD \<le> probability)
                 in Some (True, Some
                      \<lparr>failure_probability = probability,
                       days_remaining = EstimateDaysRemaining (Some recent_metrics),
                       algorithm_used = HEALTH_ALGO_NEURAL_NETWORK,
                       recommendation =
                         (if critical then
                            ''CRITICAL: Drive failure imminent! Backup data immediately and replace drive.''
                          else if warning then
                            ''WARNING: Drive showing signs of failure. Consider backing up data soon.''
                          else if 3 / 10 < probability then
                            ''Drive is aging but still functional. Monitor for further degradation.''
                          else ''Drive is healthy and operating normally.''),
                       prediction_is_critical = critical,
                       prediction_is_warning = warning\<rparr>))
      | _ \<Rightarrow> Some (False, prediction))"

section \<open>Example states and inputs\<close>

text \<open>The engine after \<^verbatim>\<open>InitRealTimeMonitor(NULL)\<close> at program start: default
  configuration, empty registry, empty alert log.\<close>

definition running_state :: monitor_state where
  "running_state = snd (InitRealTimeMonitor 0 1 None initial_state)"

text \<open>A sample in which every metric reads \<open>v\<close>.\<close>

definition sample_of :: "cfloat \<Rightarrow> sample" where
  "sample_of v = (0, (\<lambda>_. 0), (\<lambda>_. v))"

text \<open>A registry with all sixteen slots taken.\<close>

definition registry_paths :: "string list" where
  "registry_paths =
     [''A:'', ''B:'', ''C:'', ''D:'', ''E:'', ''F:'', ''G:'', ''H:'',
      ''I:'', ''J:'', ''K:'', ''L:'', ''M:'', ''N:'', ''O:'', ''P:'']"

definition full_registry_state :: monitor_state where
  "full_registry_state =
     running_state
       \<lparr>g_monitor_context :=
          (g_monitor_context running_state)
            \<lparr>drives := map (new_drive_data 260 0) registry_paths,
             drive_count := 16,
             ctx_is_monitoring := True,
             monitor_thread := 2\<rparr>\<rparr>"

text \<open>An alert log with all 144 slots taken by temperature alerts of drive \<open>E:\<close>.\<close>

definition temperature_alert :: monitor_alert_t where
  "temperature_alert =
     \<lparr>alert_drive_path = ''E:'', metric = MONITOR_METRIC_TEMPERATURE, current_value = 65,
      threshold_value = 60, alert_message = ''Critical threshold exceeded'', timestamp = 0,
      is_critical = True, is_acknowledged = False\<rparr>"

definition full_log_state :: monitor_state where
  "full_log_state =
     running_state
       \<lparr>g_monitor_context :=
          (g_monitor_context running_state)
            \<lparr>alerts := replicate (MONITOR_MAX_DRIVES * MONITOR_METRIC_MAX) temperature_alert,
             alert_count := 144\<rparr>\<rparr>"

text \<open>An alert log holding two alerts, raised through \<^verbatim>\<open>CreateAlert\<close>.\<close>

definition two_alert_state :: monitor_state where
  "two_alert_state =
     snd (CreateAlert 260 8 (Some ''E:'') MONITOR_METRIC_CAPACITY_USAGE 85 90
            (Some ''Warning threshold exceeded'') False
       (snd (CreateAlert 260 7 (Some ''E:'') MONITOR_METRIC_TEMPERATURE 65 60
               (Some ''Critical threshold exceeded'') True running_state)))"

text \<open>A configuration whose critical multiplier lies below its warning multiplier.\<close>

definition inverted_config :: monitor_config_t where
  "inverted_config = default_config\<lparr>critical_threshold := 5 / 10\<rparr>"

definition inverted_state :: monitor_state where
  "inverted_state = snd (InitRealTimeMonitor 0 1 (Some inverted_config) initial_state)"

text \<open>Drive \<open>E:\<close> is started, stopped and started again.\<close>

definition started_state :: monitor_state where
  "started_state = snd (StartDriveMonitoring 260 0 2 (Some ''E:'') running_state)"

definition stopped_state :: monitor_state where
  "stopped_state = snd (StopDriveMonitoring (Some ''E:'') started_state)"

definition restarted :: "bool \<times> monitor_state" where
  "restarted = StartDriveMonitoring 260 0 2 (Some ''E:'') stopped_state"

text \<open>Health data: no file at all, and a file whose history is empty.\<close>

definition no_health_files :: "string \<Rightarrow> usb_health_context_t option" where
  "no_health_files p = None"

definition empty_health_context :: usb_health_context_t where
  "empty_health_context =
     \<lparr>metrics = [], metrics_count = 0, drive_serial = 0, drive_model = ''Unknown'',
      drive_manufacturer = ''Unknown'', first_seen = 0, last_updated = 0\<rparr>"

definition empty_health_files :: "string \<Rightarrow> usb_health_context_t option" where
  "empty_health_files p = Some empty_health_context"

definition constant_network :: "usb_health_metrics_t \<Rightarrow> cfloat" where
  "constant_network m = 9 / 10"

definition zero_prediction :: usb_health_prediction_t where
  "zero_prediction =
     \<lparr>failure_probability = 0, days_remaining = 0, algorithm_used = HEALTH_ALGO_NEURAL_NETWORK,
      recommendation = [], prediction_is_critical = False, prediction_is_warning = False\<rparr>"

text \<open>A drive whose current reading of every metric is \<open>47\<close>.\<close>

definition warm_drive :: drive_monitor_data_t where
  "warm_drive = (new_drive_data 260 0 ''E:'')\<lparr>current_metrics := (\<lambda>_. 47)\<rparr>"

section \<open>The monitor thread and the reachable states\<close>

text \<open>The body of the inner loop of \<^verbatim>\<open>MonitorThreadProc\<close> for registry index \<open>i\<close>:
  an active drive is updated in place with the sample \<open>u\<close>.\<close>

definition monitor_thread_step :: "nat \<Rightarrow> sample \<Rightarrow> nat \<Rightarrow> monitor_state \<Rightarrow> monitor_state" where
  "monitor_thread_step max_path u i s =
     (let ctx = g_monitor_context s in
      if i < unat (drive_count ctx) \<and> is_monitoring (drives ctx ! i) then
        (let r = UpdateDriveMetrics max_path (fst u) (fst (snd u)) (sample_values u)
                   (Some (drive_path (drives ctx ! i))) (Some (drives ctx ! i)) s;
             s' = snd (snd r)
         in case fst (snd r) of
              Some d' \<Rightarrow>
                s'\<lparr>g_monitor_context :=
                     (g_monitor_context s')\<lparr>drives := (drives (g_monitor_context s'))[i := d']\<rparr>\<rparr>
            | None \<Rightarrow> s')
      else s)"

text \<open>The states the globals can be in: the state at program start, and whatever a call
  of a function of the interface or a step of the monitor thread makes of a reachable
  state.\<close>

inductive reachable :: "monitor_state \<Rightarrow> bool" where
  reachable_initial: "reachable initial_state"
| reachable_Init: "reachable s \<Longrightarrow> reachable (snd (InitRealTimeMonitor tick new_event config s))"
| reachable_Cleanup: "reachable s \<Longrightarrow> reachable (CleanupRealTimeMonitor s)"
| reachable_Start:
    "reachable s \<Longrightarrow> reachable (snd (StartDriveMonitoring max_path tick new_thread p s))"
| reachable_Stop: "reachable s \<Longrightarrow> reachable (snd (StopDriveMonitoring p s))"
| reachable_Acknowledge: "reachable s \<Longrightarrow> reachable (snd (AcknowledgeAlert i s))"
| reachable_Clear: "reachable s \<Longrightarrow> reachable (snd (ClearAllAlerts s))"
| reachable_CreateAlert:
    "reachable s \<Longrightarrow> reachable (snd (CreateAlert max_path tick p m v t msg c s))"
| reachable_thread: "reachable s \<Longrightarrow> reachable (monitor_thread_step max_path u k s)"

section \<open>Basic facts\<close>

lemma metric_order_distinct: "distinct metric_order"
  by (simp add: metric_order_def)

lemma metric_order_complete: "m \<in> set metric_order"
  by (cases m) (simp_all add: metric_order_def)

lemma MONITOR_METRIC_MAX_eq: "MONITOR_METRIC_MAX = 9"
  by (simp add: MONITOR_METRIC_MAX_def metric_order_def)

lemma alert_capacity_eq: "MONITOR_MAX_DRIVES * MONITOR_METRIC_MAX = 144"
  by (simp add: MONITOR_METRIC_MAX_eq MONITOR_MAX_DRIVES_def)

lemma find_drive_None:
  "(\<And>j. i \<le> j \<Longrightarrow> j < n \<Longrightarrow> drive_path (ds ! j) \<noteq> p) \<Longrightarrow> find_drive ds n p i = None"
proof (induction ds n p i rule: find_drive.induct)
  case (1 ds n p i)
  show ?case
  proof (cases "i < n")
    case True
    then have ne: "drive_path (ds ! i) \<noteq> p" using "1.prems" by simp
    have "find_drive ds n p (i + 1) = None"
      using "1.IH" True ne "1.prems" by simp
    then show ?thesis using True ne by (simp add: find_drive.simps [of ds n p i])
  next
    case False
    then show ?thesis by (simp add: find_drive.simps [of ds n p i])
  qed
qed

lemma find_drive_Some:
  "find_drive ds n p i = Some k \<Longrightarrow>
     i \<le> k \<and> k < n \<and> drive_path (ds ! k) = p \<and> (\<forall>j. i \<le> j \<and> j < k \<longrightarrow> drive_path (ds ! j) \<noteq> p)"
proof (induction ds n p i rule: find_drive.induct)
  case (1 ds n p i)
  show ?case
  proof (cases "i < n")
    case True
    show ?thesis
    proof (cases "drive_path (ds ! i) = p")
      case True
      then show ?thesis using \<open>i < n\<close> "1.prems" by (auto simp add: find_drive.simps [of ds n p i])
    next
      case False
      then have "find_drive ds n p (i + 1) = Some k"
        using \<open>i < n\<close> "1.prems" by (simp add: find_drive.simps [of ds n p i])
      then have ih: "i + 1 \<le> k \<and> k < n \<and> drive_path (ds ! k) = p \<and>
          (\<forall>j. i + 1 \<le> j \<and> j < k \<longrightarrow> drive_path (ds ! j) \<noteq> p)"
        using "1.IH" \<open>i < n\<close> False by simp
      have "\<forall>j. i \<le> j \<and> j < k \<longrightarrow> drive_path (ds ! j) \<noteq> p"
      proof (intro allI impI)
        fix j assume j: "i \<le> j \<and> j < k"
        show "drive_path (ds ! j) \<noteq> p"
        proof (cases "j = i")
          case True then show ?thesis using False by simp
        next
          case False then show ?thesis using ih j by simp
        qed
      qed
      then show ?thesis using ih by simp
    qed
  next
    case False
    then show ?thesis using "1.prems" by (simp add: find_drive.simps [of ds n p i])
  qed
qed


section \<open>Facts about the aggregation loop\<close>

lemma update_fold_frame:
  "data_points (foldl (update_metric new) d ms) = data_points d \<and>
   drive_path (foldl (update_metric new) d ms) = drive_path d \<and>
   error_count (foldl (update_metric new) d ms) = error_count d \<and>
   warning_count (foldl (update_metric new) d ms) = warning_count d"
  by (induction ms arbitrary: d) (simp_all add: update_metric_def)

lemma update_fold_average:
  "distinct ms \<Longrightarrow>
   average_metrics (foldl (update_metric new) d ms) m =
     (if m \<in> set ms then running_average (average_metrics d m) (data_points d) (new m)
      else average_metrics d m)"
proof (induction ms arbitrary: d)
  case Nil
  show ?case by simp
next
  case (Cons i ms)
  have dp: "data_points (update_metric new d i) = data_points d"
    by (simp add: update_metric_def)
  have av: "average_metrics (update_metric new d i) =
      (average_metrics d)(i := running_average (average_metrics d i) (data_points d) (new i))"
    by (simp add: update_metric_def)
  from Cons show ?case by (auto simp: dp av)
qed

lemma update_fold_max:
  "distinct ms \<Longrightarrow>
   max_metrics (foldl (update_metric new) d ms) m =
     (if m \<in> set ms then max (max_metrics d m) (new m) else max_metrics d m)"
proof (induction ms arbitrary: d)
  case Nil
  show ?case by simp
next
  case (Cons i ms)
  have mx: "max_metrics (update_metric new d i) =
      (max_metrics d)(i := max (max_metrics d i) (new i))"
    by (auto simp: update_metric_def max_def fun_eq_iff)
  from Cons show ?case by (auto simp: mx)
qed

lemma update_fold_min:
  "distinct ms \<Longrightarrow>
   min_metrics (foldl (update_metric new) d ms) m =
     (if m \<in> set ms then min (min_metrics d m) (new m) else min_metrics d m)"
proof (induction ms arbitrary: d)
  case Nil
  show ?case by simp
next
  case (Cons i ms)
  have mn: "min_metrics (update_metric new d i) =
      (min_metrics d)(i := min (min_metrics d i) (new i))"
    by (auto simp: update_metric_def min_def fun_eq_iff)
  from Cons show ?case by (auto simp: mn)
qed

lemma update_fold_current:
  "current_metrics (foldl (update_metric new) d ms) m =
     (if m \<in> set ms then new m else current_metrics d m)"
proof (induction ms arbitrary: d)
  case Nil
  show ?case by simp
next
  case (Cons i ms)
  have cu: "current_metrics (update_metric new d i) = (current_metrics d)(i := new i)"
    by (simp add: update_metric_def)
  from Cons show ?case by (auto simp: cu)
qed

lemma check_metric_frame:
  "average_metrics (fst (check_metric mp ticks ds i)) = average_metrics (fst ds) \<and>
   max_metrics (fst (check_metric mp ticks ds i)) = max_metrics (fst ds) \<and>
   min_metrics (fst (check_metric mp ticks ds i)) = min_metrics (fst ds) \<and>
   current_metrics (fst (check_metric mp ticks ds i)) = current_metrics (fst ds) \<and>
   data_points (fst (check_metric mp ticks ds i)) = data_points (fst ds) \<and>
   drive_path (fst (check_metric mp ticks ds i)) = drive_path (fst ds)"
  by (simp add: check_metric_def Let_def split: severity.splits)

lemma check_fold_frame:
  "average_metrics (fst (foldl (check_metric mp ticks) ds ms)) = average_metrics (fst ds) \<and>
   max_metrics (fst (foldl (check_metric mp ticks) ds ms)) = max_metrics (fst ds) \<and>
   min_metrics (fst (foldl (check_metric mp ticks) ds ms)) = min_metrics (fst ds) \<and>
   current_metrics (fst (foldl (check_metric mp ticks) ds ms)) = current_metrics (fst ds) \<and>
   data_points (fst (foldl (check_metric mp ticks) ds ms)) = data_points (fst ds) \<and>
   drive_path (fst (foldl (check_metric mp ticks) ds ms)) = drive_path (fst ds)"
  by (induction ms arbitrary: ds) (simp_all add: check_metric_frame)

lemma UpdateDriveMetrics_data:
  "\<exists>d'. fst (snd (UpdateDriveMetrics mp t ticks new (Some p) (Some d) s)) = Some d' \<and>
     average_metrics d' m = running_average (average_metrics d m) (data_points d) (new m) \<and>
     max_metrics d' m = max (max_metrics d m) (new m) \<and>
     min_metrics d' m = min (min_metrics d m) (new m) \<and>
     current_metrics d' m = new m \<and>
     data_points d' = data_points d + 1 \<and>
     drive_path d' = drive_path d"
  by (simp add: UpdateDriveMetrics_def CheckForAlerts_def Let_def check_fold_frame
      update_fold_frame update_fold_average update_fold_max update_fold_min update_fold_current
      metric_order_distinct metric_order_complete)

lemma run_updates_Cons_data:
  "\<exists>d' s'. run_updates mp (u # us) (d, s) = run_updates mp us (d', s') \<and>
     average_metrics d' m = running_average (average_metrics d m) (data_points d) (sample_values u m) \<and>
     max_metrics d' m = max (max_metrics d m) (sample_values u m) \<and>
     min_metrics d' m = min (min_metrics d m) (sample_values u m) \<and>
     data_points d' = data_points d + 1"
proof -
  let ?r = "UpdateDriveMetrics mp (fst u) (fst (snd u)) (sample_values u)
        (Some (drive_path d)) (Some d) s"
  obtain d' where d': "fst (snd ?r) = Some d'"
    and rest: "average_metrics d' m = running_average (average_metrics d m) (data_points d) (sample_values u m)"
      "max_metrics d' m = max (max_metrics d m) (sample_values u m)"
      "min_metrics d' m = min (min_metrics d m) (sample_values u m)"
      "data_points d' = data_points d + 1"
    using UpdateDriveMetrics_data [of mp "fst u" "fst (snd u)" "sample_values u" "drive_path d" d s m]
    by blast
  have "run_updates mp (u # us) (d, s) = run_updates mp us (d', snd (snd ?r))"
    using d' by (simp add: Let_def)
  then show ?thesis using rest by blast
qed

lemma run_updates_append:
  "run_updates mp (xs @ ys) ds = run_updates mp ys (run_updates mp xs ds)"
  by (induction xs arbitrary: ds) (simp_all add: Let_def split: option.splits)

lemma Max_insert_max:
  "finite S \<Longrightarrow> Max (insert (max a v) S) = Max (insert a (insert (v::rat) S))"
  by (cases "S = {}") (simp_all add: max.assoc)

lemma Min_insert_min:
  "finite S \<Longrightarrow> Min (insert (min a v) S) = Min (insert a (insert (v::rat) S))"
  by (cases "S = {}") (simp_all add: min.assoc)

lemma run_updates_max:
  "max_metrics (fst (run_updates mp us (d, s))) m =
     Max (insert (max_metrics d m) (set (map (\<lambda>u. sample_values u m) us)))"
proof (induction us arbitrary: d s)
  case Nil
  show ?case by simp
next
  case (Cons u us)
  obtain d' s' where step: "run_updates mp (u # us) (d, s) = run_updates mp us (d', s')"
    and mx: "max_metrics d' m = max (max_metrics d m) (sample_values u m)"
    using run_updates_Cons_data [of mp u us d s m] by blast
  have "max_metrics (fst (run_updates mp us (d', s'))) m =
      Max (insert (max_metrics d' m) (set (map (\<lambda>u. sample_values u m) us)))"
    by (rule Cons.IH)
  also have "\<dots> = Max (insert (max_metrics d m) (set (map (\<lambda>u. sample_values u m) (u # us))))"
    unfolding mx by (simp add: Max_insert_max)
  finally show ?case using step by simp
qed

lemma run_updates_min:
  "min_metrics (fst (run_updates mp us (d, s))) m =
     Min (insert (min_metrics d m) (set (map (\<lambda>u. sample_values u m) us)))"
proof (induction us arbitrary: d s)
  case Nil
  show ?case by simp
next
  case (Cons u us)
  obtain d' s' where step: "run_updates mp (u # us) (d, s) = run_updates mp us (d', s')"
    and mn: "min_metrics d' m = min (min_metrics d m) (sample_values u m)"
    using run_updates_Cons_data [of mp u us d s m] by blast
  have "min_metrics (fst (run_updates mp us (d', s'))) m =
      Min (insert (min_metrics d' m) (set (map (\<lambda>u. sample_values u m) us)))"
    by (rule Cons.IH)
  also have "\<dots> = Min (insert (min_metrics d m) (set (map (\<lambda>u. sample_values u m) (u # us))))"
    unfolding mn by (simp add: Min_insert_min)
  finally show ?case using step by simp
qed

text \<open>Rounding a counter: a positive count below \<open>2^32\<close> rounds to a positive finite
  float.\<close>

lemma round_half_even_bounds: "\<lfloor>x\<rfloor> \<le> round_half_even x \<and> round_half_even x \<le> \<lfloor>x\<rfloor> + 1"
  by (simp add: round_half_even_def Let_def)

lemma binary32_round_zero: "binary32_round 0 = Some 0"
  by (simp add: binary32_round_def)

lemma binary32_round_of_nat:
  assumes "0 < k" and "k < 2 ^ 32"
  shows "\<exists>r. binary32_round (of_nat k) = Some r \<and> 0 < r"
proof -
  define x :: rat where "x = of_nat k"
  define b where "b = bitlen (int k)"
  have x1: "1 \<le> x" using assms(1) by (simp add: x_def)
  have bnd: "2 ^ nat (b - 1) \<le> int k"
    using bitlen_bounds [of "int k"] assms(1) by (simp add: b_def)
  have b1: "1 \<le> b"
    using assms(1) bitlen_nonneg [of "int k"] bitlen_eq_zero_iff [of "int k"]
    by (simp add: b_def)
  have fl: "floor_log2 \<bar>x\<bar> = b - 1"
    using x1 by (simp add: floor_log2_def x_def b_def)
  define ulp :: rat where "ulp = 2 powi (b - 24)"
  have ulp_pos: "0 < ulp" by (simp add: ulp_def)
  have e: "max (floor_log2 \<bar>x\<bar>) (- 126) - 23 = b - 24"
    using fl b1 by simp
  have "(2::rat) powi (b - 24) \<le> 2 powi (b - 1)"
    by (rule power_int_increasing) simp_all
  also have "\<dots> = 2 ^ nat (b - 1)"
    using b1 by (simp add: power_int_def)
  also have "\<dots> \<le> x"
  proof -
    have "(of_int (2 ^ nat (b - 1)) :: rat) \<le> of_int (int k)"
      using bnd by (simp only: of_int_le_iff)
    then show ?thesis by (simp add: x_def)
  qed
  finally have ulp_le: "ulp \<le> x" by (simp add: ulp_def)
  define m where "m = x / ulp"
  have m1: "1 \<le> m" using ulp_le ulp_pos by (simp add: m_def)
  have fm: "1 \<le> \<lfloor>m\<rfloor>" using m1 by simp
  define q where "q = round_half_even m"
  have q1: "1 \<le> q"
    using round_half_even_bounds [of m] fm unfolding q_def by linarith
  have q2: "q \<le> \<lfloor>m\<rfloor> + 1"
    using round_half_even_bounds [of m] unfolding q_def by blast
  define r where "r = of_int q * ulp"
  have r_pos: "0 < r" using q1 ulp_pos by (simp add: r_def)
  have "of_int q \<le> m + 1"
  proof -
    have "(of_int q :: rat) \<le> of_int (\<lfloor>m\<rfloor> + 1)" using q2 by (simp only: of_int_le_iff)
    also have "\<dots> \<le> m + 1" by simp
    finally show ?thesis .
  qed
  then have "r \<le> (m + 1) * ulp"
    using ulp_pos by (simp add: r_def)
  also have "\<dots> = x + ulp" using ulp_pos by (simp add: m_def algebra_simps)
  also have "\<dots> \<le> 2 * x" using ulp_le by simp
  also have "\<dots> < 2 * 2 ^ 32"
  proof -
    have "x < of_nat (2 ^ 32)" unfolding x_def using assms(2) by (simp only: of_nat_less_iff)
    then show ?thesis by simp
  qed
  finally have "r < 2 ^ 128" by simp
  then have small: "\<not> 2 ^ 128 \<le> \<bar>r\<bar>" using r_pos by simp
  have x0: "x \<noteq> 0" using x1 by simp
  have "binary32_round x = Some r"
    using x0 small unfolding binary32_round_def Let_def e r_def q_def m_def ulp_def by simp
  then show ?thesis using r_pos unfolding x_def by blast
qed

text \<open>A running average of zeros stays zero, until the counter wraps: then the quotient is
  \<open>0 / 0\<close>, a NaN.\<close>

lemma running_average_zero:
  "running_average (Some 0) n 0 = (if n + 1 = 0 then None else Some 0)"
proof -
  have cnt: "\<exists>c. binary32_round (of_nat (unat n)) = Some c"
  proof (cases "unat n = 0")
    case True
    then show ?thesis by (simp add: binary32_round_zero)
  next
    case False
    then have "0 < unat n" by simp
    moreover have "unat n < 2 ^ 32" using unsigned_less [of n] by simp
    ultimately show ?thesis using binary32_round_of_nat [of "unat n"] by blast
  qed
  then obtain c where "binary32_round (of_nat (unat n)) = Some c" by blast
  then have c: "binary32_round (unsigned n) = Some c" by simp
  show ?thesis
  proof (cases "n + 1 = 0")
    case True
    then show ?thesis
      unfolding running_average_def by (simp add: c binary32_round_zero)
  next
    case False
    then have "0 < unat (n + 1)" by (simp add: unat_gt_0)
    moreover have "unat (n + 1) < 2 ^ 32" using unsigned_less [of "n + 1"] by simp
    ultimately obtain r where r: "binary32_round (of_nat (unat (n + 1))) = Some r" "0 < r"
      using binary32_round_of_nat [of "unat (n + 1)"] by blast
    show ?thesis
      using False r unfolding running_average_def by (simp add: c binary32_round_zero)
  qed
qed

lemma run_updates_zero:
  assumes "average_metrics d m = Some 0"
    and "unat (data_points d) + length us < 2 ^ 32"
    and "\<forall>u \<in> set us. sample_values u m = 0"
  shows "average_metrics (fst (run_updates mp us (d, s))) m = Some 0 \<and>
         unat (data_points (fst (run_updates mp us (d, s)))) = unat (data_points d) + length us"
  using assms
proof (induction us arbitrary: d s)
  case Nil
  then show ?case by simp
next
  case (Cons u us)
  obtain d' s' where step: "run_updates mp (u # us) (d, s) = run_updates mp us (d', s')"
    and av: "average_metrics d' m
        = running_average (average_metrics d m) (data_points d) (sample_values u m)"
    and dp: "data_points d' = data_points d + 1"
    using run_updates_Cons_data [of mp u us d s m] by blast
  have small: "unat (data_points d) + 1 < 2 ^ 32" using Cons.prems(2) by simp
  have k': "unat (data_points d') = unat (data_points d) + 1"
    using small by (simp add: dp unat_word_ariths)
  have nz: "data_points d + 1 \<noteq> 0"
    using k' dp by (metis Suc_eq_plus1 nat.distinct(1) unat_0)
  have v0: "sample_values u m = 0" using Cons.prems(3) by simp
  have av': "average_metrics d' m = Some 0"
    unfolding av Cons.prems(1) v0 running_average_zero using nz by simp
  have bound: "unat (data_points d') + length us < 2 ^ 32"
    using Cons.prems(2) k' by simp
  have rest: "\<forall>u \<in> set us. sample_values u m = 0" using Cons.prems(3) by simp
  show ?case
    unfolding step using Cons.IH [OF av' bound rest] k' by simp
qed

section \<open>Capacity limits and unknown paths\<close>

lemma running_state_fields:
  "g_monitor_initialized running_state"
  "g_monitor_config running_state = default_config"
  "g_monitor_context running_state = zero_context\<lparr>stop_event := 1\<rparr>"
  by (simp_all add: running_state_def InitRealTimeMonitor_def initial_state_def zero_context_def)

text \<open>Claim C4. The alert array has \<open>MONITOR_MAX_DRIVES * MONITOR_METRIC_MAX = 144\<close>
  slots. Once the alert count has reached that number, \<^verbatim>\<open>CreateAlert\<close> returns
  \<open>FALSE\<close> and the globals (alert count, every stored alert, everything else) are what
  they were: nothing is evicted.\<close>

theorem CreateAlert_log_full:
  "length (alerts zero_context) = MONITOR_MAX_DRIVES * MONITOR_METRIC_MAX \<and>
   MONITOR_MAX_DRIVES * MONITOR_METRIC_MAX = 144 \<and>
   (MONITOR_MAX_DRIVES * MONITOR_METRIC_MAX \<le> unat (alert_count (g_monitor_context s)) \<longrightarrow>
      CreateAlert max_path tick p m v t msg c s = (False, s))"
  by (simp add: zero_context_def alert_capacity_eq CreateAlert_def split: option.splits)

theorem CreateAlert_log_full_witness:
  "g_monitor_initialized full_log_state \<and>
   unat (alert_count (g_monitor_context full_log_state)) = 144 \<and>
   CreateAlert 260 9 (Some ''E:'') MONITOR_METRIC_TEMPERATURE 65 60
     (Some ''Critical threshold exceeded'') True full_log_state = (False, full_log_state)"
proof -
  have cnt: "unat (alert_count (g_monitor_context full_log_state)) = 144"
    by (simp add: full_log_state_def)
  have ini: "g_monitor_initialized full_log_state"
    by (simp add: full_log_state_def running_state_fields)
  show ?thesis
    using CreateAlert_log_full [of full_log_state 260 9 "Some ''E:''" MONITOR_METRIC_TEMPERATURE
        65 60 "Some ''Critical threshold exceeded''" True] cnt ini
    by simp
qed

lemma ex_index_take:
  assumes "n \<le> length ds"
  shows "(\<exists>i \<in> {0 ..< n}. f (ds ! i) = p) \<longleftrightarrow> p \<in> set (map f (take n ds))"
proof
  assume "\<exists>i \<in> {0 ..< n}. f (ds ! i) = p"
  then obtain i where i: "i < n" "f (ds ! i) = p" by auto
  then have "take n ds ! i = ds ! i" "i < length (take n ds)" using assms by simp_all
  then have "ds ! i \<in> set (take n ds)" by (metis nth_mem)
  then show "p \<in> set (map f (take n ds))" using i(2) by force
next
  assume "p \<in> set (map f (take n ds))"
  then obtain x where x: "x \<in> set (take n ds)" "f x = p" by auto
  then obtain i where "i < length (take n ds)" "take n ds ! i = x"
    by (auto simp: in_set_conv_nth)
  then have "i < n" "ds ! i = x" using assms by simp_all
  then show "\<exists>i \<in> {0 ..< n}. f (ds ! i) = p" using x(2) by auto
qed

lemma path_in_registry_set:
  assumes "unat (drive_count (g_monitor_context s)) \<le> length (drives (g_monitor_context s))"
  shows "path_in_registry p s \<longleftrightarrow>
     p \<in> set (map drive_path (take (unat (drive_count (g_monitor_context s))) (drives (g_monitor_context s))))"
  unfolding path_in_registry_def by (rule ex_index_take [OF assms])

text \<open>Claim C5. The registry has 16 slots. When all are taken,
  \<^verbatim>\<open>StartDriveMonitoring\<close> for a path that no registered record carries returns
  \<open>FALSE\<close> and the globals are what they were: every record (path, activity flag,
  metrics, counters) and the registry count.\<close>

theorem StartDriveMonitoring_registry_full:
  assumes "MONITOR_MAX_DRIVES \<le> unat (drive_count (g_monitor_context s))"
      and "\<not> path_in_registry p s"
  shows "MONITOR_MAX_DRIVES = 16 \<and>
         StartDriveMonitoring max_path tick new_thread (Some p) s = (False, s)"
proof -
  have "find_drive (drives (g_monitor_context s)) (unat (drive_count (g_monitor_context s))) p 0 = None"
    using assms(2) by (intro find_drive_None) (auto simp: path_in_registry_def)
  then have "\<not> IsDriveBeingMonitored (Some p) s"
    by (simp add: IsDriveBeingMonitored_def)
  then show ?thesis using assms(1) by (simp add: StartDriveMonitoring_def Let_def MONITOR_MAX_DRIVES_def)
qed

lemma new_drive_data_path: "drive_path (new_drive_data mp t p) = take (mp - 1) p"
  by (simp add: new_drive_data_def)

lemma full_registry_state_fields:
  "g_monitor_initialized full_registry_state"
  "drive_count (g_monitor_context full_registry_state) = 16"
  "drives (g_monitor_context full_registry_state) = map (new_drive_data 260 0) registry_paths"
  by (simp_all add: full_registry_state_def running_state_fields)

theorem StartDriveMonitoring_registry_full_witness:
  "g_monitor_initialized full_registry_state \<and>
   unat (drive_count (g_monitor_context full_registry_state)) = 16 \<and>
   \<not> path_in_registry ''Q:'' full_registry_state \<and>
   StartDriveMonitoring 260 5 3 (Some ''Q:'') full_registry_state = (False, full_registry_state)"
proof -
  have cnt: "unat (drive_count (g_monitor_context full_registry_state)) = 16"
    by (simp add: full_registry_state_fields)
  have len: "unat (drive_count (g_monitor_context full_registry_state))
      \<le> length (drives (g_monitor_context full_registry_state))"
    by (simp add: full_registry_state_fields registry_paths_def)
  have absent: "\<not> path_in_registry ''Q:'' full_registry_state"
    unfolding path_in_registry_set [OF len]
    by (simp add: full_registry_state_fields registry_paths_def new_drive_data_path)
  have full: "MONITOR_MAX_DRIVES \<le> unat (drive_count (g_monitor_context full_registry_state))"
    by (simp add: cnt MONITOR_MAX_DRIVES_def)
  show ?thesis
    using StartDriveMonitoring_registry_full [OF full absent, of 260 5 3] cnt absent
    by (simp add: full_registry_state_fields)
qed

text \<open>Claim C10. \<^verbatim>\<open>StopDriveMonitoring\<close> with a non-null path that no registered
  record carries returns \<open>FALSE\<close> and leaves the globals as they were: registry, alert
  log and running flag. (It holds whether or not the engine is initialised.)\<close>

theorem StopDriveMonitoring_unknown_path:
  assumes "\<not> path_in_registry p s"
  shows "StopDriveMonitoring (Some p) s = (False, s)"
proof -
  have "find_drive (drives (g_monitor_context s)) (unat (drive_count (g_monitor_context s))) p 0 = None"
    using assms by (intro find_drive_None) (auto simp: path_in_registry_def)
  then show ?thesis by (simp add: StopDriveMonitoring_def Let_def)
qed

lemma find_drive_empty: "find_drive ds 0 p 0 = None"
  by (simp add: find_drive.simps)

lemma started_state_fields:
  "g_monitor_initialized started_state"
  "drive_count (g_monitor_context started_state) = 1"
  "drives (g_monitor_context started_state) =
     (replicate MONITOR_MAX_DRIVES zero_drive)[0 := new_drive_data 260 0 ''E:'']"
  "ctx_is_monitoring (g_monitor_context started_state)"
  by (simp_all add: started_state_def StartDriveMonitoring_def IsDriveBeingMonitored_def
      running_state_fields zero_context_def find_drive_empty MONITOR_MAX_DRIVES_def Let_def)

theorem StopDriveMonitoring_unknown_path_witness:
  "g_monitor_initialized started_state \<and>
   \<not> path_in_registry ''F:'' started_state \<and>
   path_in_registry ''E:'' started_state \<and>
   StopDriveMonitoring (Some ''F:'') started_state = (False, started_state)"
proof -
  have len: "unat (drive_count (g_monitor_context started_state))
      \<le> length (drives (g_monitor_context started_state))"
    by (simp add: started_state_fields MONITOR_MAX_DRIVES_def)
  have absent: "\<not> path_in_registry ''F:'' started_state"
    unfolding path_in_registry_set [OF len]
    by (simp add: started_state_fields MONITOR_MAX_DRIVES_def new_drive_data_path take_Suc_conv_app_nth)
  have present: "path_in_registry ''E:'' started_state"
    unfolding path_in_registry_set [OF len]
    by (simp add: started_state_fields MONITOR_MAX_DRIVES_def new_drive_data_path take_Suc_conv_app_nth)
  show ?thesis
    using StopDriveMonitoring_unknown_path [OF absent] absent present
    by (simp add: started_state_fields)
qed

section \<open>The state invariant; acknowledging alerts\<close>

text \<open>The invariant holds at program start and every operation keeps it.\<close>

lemma monitor_inv_initial: "monitor_inv initial_state"
  by (simp add: monitor_inv_def initial_state_def zero_context_def)

lemma monitor_inv_Init:
  "monitor_inv s \<Longrightarrow> monitor_inv (snd (InitRealTimeMonitor tick new_event config s))"
  by (simp add: InitRealTimeMonitor_def Let_def monitor_inv_def zero_context_def)

lemma monitor_inv_Cleanup:
  "monitor_inv s \<Longrightarrow> monitor_inv (CleanupRealTimeMonitor s)"
  by (auto simp: CleanupRealTimeMonitor_def Let_def monitor_inv_def zero_context_def)

lemma unat_succ_le:
  fixes n :: uint32_t
  assumes "\<not> k \<le> unat n" and "k \<le> 1000"
  shows "unat (n + 1) = unat n + 1" and "unat (n + 1) \<le> k"
proof -
  have "unat n + 1 < 2 ^ 32" using assms by simp
  then show "unat (n + 1) = unat n + 1" by (simp add: unat_word_ariths)
  then show "unat (n + 1) \<le> k" using assms by simp
qed

lemma monitor_inv_Start:
  assumes "monitor_inv s"
  shows "monitor_inv (snd (StartDriveMonitoring mp tick th p s))"
proof (cases "g_monitor_initialized s")
  case False
  then show ?thesis using assms by (simp add: StartDriveMonitoring_def)
next
  case True
  show ?thesis
  proof (cases p)
    case None
    then show ?thesis
      using assms True by (simp add: StartDriveMonitoring_def Let_def monitor_inv_def)
  next
    case (Some q)
    show ?thesis
    proof (cases "IsDriveBeingMonitored (Some q) s \<or>
        MONITOR_MAX_DRIVES \<le> unat (drive_count (g_monitor_context s))")
      case True
      then show ?thesis
        using assms Some \<open>g_monitor_initialized s\<close> by (auto simp: StartDriveMonitoring_def Let_def)
    next
      case False
      then have free: "\<not> MONITOR_MAX_DRIVES \<le> unat (drive_count (g_monitor_context s))"
        by simp
      have "unat (drive_count (g_monitor_context s) + 1) \<le> MONITOR_MAX_DRIVES"
        by (rule unat_succ_le(2) [OF free]) (simp add: MONITOR_MAX_DRIVES_def)
      then show ?thesis
        using assms Some False \<open>g_monitor_initialized s\<close>
        by (simp add: StartDriveMonitoring_def Let_def monitor_inv_def)
    qed
  qed
qed

lemma monitor_inv_Stop:
  assumes "monitor_inv s"
  shows "monitor_inv (snd (StopDriveMonitoring p s))"
proof (cases "g_monitor_initialized s")
  case False
  then show ?thesis using assms by (simp add: StopDriveMonitoring_def)
next
  case True
  then show ?thesis
    using assms
    by (cases p) (simp_all add: StopDriveMonitoring_def Let_def monitor_inv_def split: option.splits)
qed

lemma monitor_inv_Acknowledge:
  "monitor_inv s \<Longrightarrow> monitor_inv (snd (AcknowledgeAlert i s))"
  by (auto simp: AcknowledgeAlert_def Let_def monitor_inv_def)

lemma monitor_inv_Clear:
  "monitor_inv s \<Longrightarrow> monitor_inv (snd (ClearAllAlerts s))"
  by (auto simp: ClearAllAlerts_def Let_def monitor_inv_def)

lemma monitor_inv_CreateAlert:
  assumes "monitor_inv s"
  shows "monitor_inv (snd (CreateAlert mp tick p m v t msg c s))"
proof (cases "\<exists>q body. p = Some q \<and> msg = Some body \<and> g_monitor_initialized s \<and>
    \<not> MONITOR_MAX_DRIVES * MONITOR_METRIC_MAX \<le> unat (alert_count (g_monitor_context s))")
  case True
  then obtain q body where p: "p = Some q" "msg = Some body" and ini: "g_monitor_initialized s"
    and free: "\<not> MONITOR_MAX_DRIVES * MONITOR_METRIC_MAX \<le> unat (alert_count (g_monitor_context s))"
    by blast
  have "unat (alert_count (g_monitor_context s) + 1) \<le> MONITOR_MAX_DRIVES * MONITOR_METRIC_MAX"
    by (rule unat_succ_le(2) [OF free]) (simp add: alert_capacity_eq)
  then show ?thesis
    using assms p ini free by (simp add: CreateAlert_def Let_def monitor_inv_def)
next
  case False
  then have "snd (CreateAlert mp tick p m v t msg c s) = s"
    by (auto simp: CreateAlert_def Let_def split: option.splits)
  then show ?thesis using assms by simp
qed

lemma monitor_inv_check_fold:
  "monitor_inv (snd ds) \<Longrightarrow> monitor_inv (snd (foldl (check_metric mp ticks) ds ms))"
proof (induction ms arbitrary: ds)
  case Nil
  then show ?case by simp
next
  case (Cons i ms)
  have "monitor_inv (snd (check_metric mp ticks ds i))"
    using Cons.prems
    by (simp add: check_metric_def Let_def monitor_inv_CreateAlert split: severity.splits)
  then show ?case using Cons.IH by simp
qed

lemma monitor_inv_UpdateDriveMetrics:
  "monitor_inv s \<Longrightarrow> monitor_inv (snd (snd (UpdateDriveMetrics mp t ticks new p d s)))"
  by (simp add: UpdateDriveMetrics_def CheckForAlerts_def Let_def monitor_inv_check_fold
      split: option.splits)

text \<open>Claim C9. In every state that satisfies the invariant, for every index \<open>i\<close>:
  when \<open>i\<close> is at or beyond the alert count, \<^verbatim>\<open>AcknowledgeAlert\<close> returns \<open>FALSE\<close>
  and the globals are unchanged; when \<open>i\<close> is below the alert count, slot \<open>i\<close> exists,
  the call returns \<open>TRUE\<close>, and the new globals are the old ones with the acknowledged
  flag of alert \<open>i\<close> set: every other field of that alert, every other alert and the
  alert count are as before.\<close>

theorem AcknowledgeAlert_frame:
  assumes "monitor_inv s"
  shows "(alert_count (g_monitor_context s) \<le> i \<longrightarrow> AcknowledgeAlert i s = (False, s)) \<and>
         (i < alert_count (g_monitor_context s) \<longrightarrow>
            unat i < length (alerts (g_monitor_context s)) \<and>
            AcknowledgeAlert i s =
              (True, s\<lparr>g_monitor_context :=
                 (g_monitor_context s)\<lparr>alerts := (alerts (g_monitor_context s))[unat i :=
                   (alerts (g_monitor_context s) ! unat i)\<lparr>is_acknowledged := True\<rparr>]\<rparr>\<rparr>))"
proof (intro conjI impI)
  assume "alert_count (g_monitor_context s) \<le> i"
  then show "AcknowledgeAlert i s = (False, s)"
    by (simp add: AcknowledgeAlert_def Let_def)
next
  assume lt: "i < alert_count (g_monitor_context s)"
  then have "unat i < unat (alert_count (g_monitor_context s))"
    by (simp add: word_less_nat_alt)
  then show "unat i < length (alerts (g_monitor_context s))"
    using assms by (simp add: monitor_inv_def Let_def)
next
  assume lt: "i < alert_count (g_monitor_context s)"
  then have "alert_count (g_monitor_context s) \<noteq> 0"
    by (metis word_not_simps(1))
  then have "g_monitor_initialized s"
    using assms by (auto simp: monitor_inv_def Let_def)
  then show "AcknowledgeAlert i s =
      (True, s\<lparr>g_monitor_context :=
         (g_monitor_context s)\<lparr>alerts := (alerts (g_monitor_context s))[unat i :=
           (alerts (g_monitor_context s) ! unat i)\<lparr>is_acknowledged := True\<rparr>]\<rparr>\<rparr>)"
    using lt by (simp add: AcknowledgeAlert_def Let_def)
qed

lemma monitor_inv_running: "monitor_inv running_state"
  unfolding running_state_def by (rule monitor_inv_Init [OF monitor_inv_initial])

lemma monitor_inv_two_alerts: "monitor_inv two_alert_state"
  unfolding two_alert_state_def
  by (intro monitor_inv_CreateAlert monitor_inv_running)

lemma two_alert_state_fields:
  "alert_count (g_monitor_context two_alert_state) = 2"
  "alerts (g_monitor_context two_alert_state) ! 0 =
     temperature_alert\<lparr>timestamp := 7\<rparr>"
  "is_acknowledged (alerts (g_monitor_context two_alert_state) ! Suc 0) = False"
  "metric (alerts (g_monitor_context two_alert_state) ! Suc 0) = MONITOR_METRIC_CAPACITY_USAGE"
  by (simp_all add: two_alert_state_def CreateAlert_def Let_def running_state_fields
      zero_context_def alert_capacity_eq temperature_alert_def)

theorem AcknowledgeAlert_frame_witness:
  "monitor_inv two_alert_state \<and>
   (1 :: uint32_t) < alert_count (g_monitor_context two_alert_state) \<and>
   fst (AcknowledgeAlert 1 two_alert_state) = True \<and>
   is_acknowledged (alerts (g_monitor_context (snd (AcknowledgeAlert 1 two_alert_state))) ! 1) \<and>
   metric (alerts (g_monitor_context (snd (AcknowledgeAlert 1 two_alert_state))) ! 1)
     = MONITOR_METRIC_CAPACITY_USAGE \<and>
   alerts (g_monitor_context (snd (AcknowledgeAlert 1 two_alert_state))) ! 0
     = alerts (g_monitor_context two_alert_state) ! 0 \<and>
   alert_count (g_monitor_context (snd (AcknowledgeAlert 1 two_alert_state))) = 2 \<and>
   alert_count (g_monitor_context two_alert_state) \<le> (2 :: uint32_t) \<and>
   AcknowledgeAlert 2 two_alert_state = (False, two_alert_state)"
proof -
  have a: "(1 :: uint32_t) < alert_count (g_monitor_context two_alert_state)"
    by (simp add: two_alert_state_fields)
  have b: "alert_count (g_monitor_context two_alert_state) \<le> (2 :: uint32_t)"
    by (simp add: two_alert_state_fields)
  show ?thesis
    using AcknowledgeAlert_frame [OF monitor_inv_two_alerts, of 1]
      AcknowledgeAlert_frame [OF monitor_inv_two_alerts, of 2] a b monitor_inv_two_alerts
    by (simp add: two_alert_state_fields)
qed

section \<open>Reachable states\<close>

text \<open>Every reachable state satisfies the invariant.\<close>

lemma monitor_inv_thread_step:
  assumes "monitor_inv s"
  shows "monitor_inv (monitor_thread_step mp u i s)"
proof -
  let ?r = "UpdateDriveMetrics mp (fst u) (fst (snd u)) (sample_values u)
      (Some (drive_path (drives (g_monitor_context s) ! i)))
      (Some (drives (g_monitor_context s) ! i)) s"
  have inv: "monitor_inv (snd (snd ?r))"
    by (rule monitor_inv_UpdateDriveMetrics [OF assms])
  have "monitor_inv ((snd (snd ?r))\<lparr>g_monitor_context :=
      (g_monitor_context (snd (snd ?r)))
        \<lparr>drives := (drives (g_monitor_context (snd (snd ?r))))[i := d']\<rparr>\<rparr>)" for d'
    using inv by (auto simp: monitor_inv_def Let_def)
  then show ?thesis
    using assms inv by (simp add: monitor_thread_step_def Let_def split: option.splits)
qed

lemma reachable_monitor_inv: "reachable s \<Longrightarrow> monitor_inv s"
proof (induction rule: reachable.induct)
  case reachable_initial
  show ?case by (rule monitor_inv_initial)
next
  case (reachable_Init s tick new_event config)
  then show ?case by (simp add: monitor_inv_Init)
next
  case (reachable_Cleanup s)
  then show ?case by (simp add: monitor_inv_Cleanup)
next
  case (reachable_Start s max_path tick new_thread p)
  then show ?case by (simp add: monitor_inv_Start)
next
  case (reachable_Stop s p)
  then show ?case by (simp add: monitor_inv_Stop)
next
  case (reachable_Acknowledge s i)
  then show ?case by (simp add: monitor_inv_Acknowledge)
next
  case (reachable_Clear s)
  then show ?case by (simp add: monitor_inv_Clear)
next
  case (reachable_CreateAlert s max_path tick p m v t msg c)
  then show ?case by (simp add: monitor_inv_CreateAlert)
next
  case (reachable_thread s max_path u k)
  then show ?case by (simp add: monitor_inv_thread_step)
qed

section \<open>Restarting a stopped drive\<close>

lemma find_drive_first:
  "0 < n \<Longrightarrow> drive_path (ds ! 0) = p \<Longrightarrow> find_drive ds n p 0 = Some 0"
  by (simp add: find_drive.simps [of ds n p 0])

lemma stopped_state_fields:
  "g_monitor_initialized stopped_state"
  "drive_count (g_monitor_context stopped_state) = 1"
  "drives (g_monitor_context stopped_state) =
     (replicate MONITOR_MAX_DRIVES zero_drive)
       [0 := (new_drive_data 260 0 ''E:'')\<lparr>is_monitoring := False\<rparr>]"
  "ctx_is_monitoring (g_monitor_context stopped_state)"
  by (simp_all add: stopped_state_def StopDriveMonitoring_def started_state_fields
      find_drive_first new_drive_data_path MONITOR_MAX_DRIVES_def Let_def)

lemma stopped_not_monitored: "\<not> IsDriveBeingMonitored (Some ''E:'') stopped_state"
  by (simp add: IsDriveBeingMonitored_def stopped_state_fields find_drive_first
      new_drive_data_path MONITOR_MAX_DRIVES_def Let_def)

text \<open>Claim C3 does not hold of the code. \<^verbatim>\<open>StartDriveMonitoring\<close> asks
  \<^verbatim>\<open>IsDriveBeingMonitored\<close>, which answers with the activity flag of the first record
  carrying the path; for a stopped drive that is \<open>FALSE\<close>, and a second record is
  allocated. Below, drive \<open>E:\<close> is started, stopped and started again: the registry
  then holds two records for \<open>E:\<close>, the first still inactive, and
  \<^verbatim>\<open>IsDriveBeingMonitored\<close> still answers \<open>FALSE\<close> for the path.\<close>

theorem restart_allocates_second_record:
  "path_in_registry ''E:'' stopped_state \<and>
   drive_count (g_monitor_context stopped_state) = 1 \<and>
   fst restarted = True \<and>
   drive_count (g_monitor_context (snd restarted)) = 2 \<and>
   drive_path (drives (g_monitor_context (snd restarted)) ! 0) = ''E:'' \<and>
   drive_path (drives (g_monitor_context (snd restarted)) ! 1) = ''E:'' \<and>
   is_monitoring (drives (g_monitor_context (snd restarted)) ! 0) = False \<and>
   is_monitoring (drives (g_monitor_context (snd restarted)) ! 1) = True \<and>
   IsDriveBeingMonitored (Some ''E:'') (snd restarted) = False"
proof -
  have len: "unat (drive_count (g_monitor_context stopped_state))
      \<le> length (drives (g_monitor_context stopped_state))"
    by (simp add: stopped_state_fields MONITOR_MAX_DRIVES_def)
  have present: "path_in_registry ''E:'' stopped_state"
    unfolding path_in_registry_set [OF len]
    by (simp add: stopped_state_fields MONITOR_MAX_DRIVES_def new_drive_data_path take_Suc_conv_app_nth)
  have r: "restarted =
    (True, stopped_state\<lparr>g_monitor_context := (g_monitor_context stopped_state)
       \<lparr>drives := (drives (g_monitor_context stopped_state))[1 := new_drive_data 260 0 ''E:''],
        drive_count := 2\<rparr>\<rparr>)"
    by (simp add: restarted_def StartDriveMonitoring_def stopped_not_monitored
        stopped_state_fields MONITOR_MAX_DRIVES_def Let_def)
  show ?thesis
    unfolding r using present
    by (simp add: stopped_state_fields MONITOR_MAX_DRIVES_def new_drive_data_path new_drive_data_def
        IsDriveBeingMonitored_def find_drive_first Let_def)
qed

text \<open>The two cases of a path that is already registered, in general: an active drive is
  left alone; a stopped drive gets a second record in the next free slot.\<close>

lemma StartDriveMonitoring_active:
  assumes "IsDriveBeingMonitored (Some p) s"
  shows "StartDriveMonitoring max_path tick new_thread (Some p) s = (True, s)"
proof -
  have "g_monitor_initialized s"
    using assms by (cases "g_monitor_initialized s") (simp_all add: IsDriveBeingMonitored_def)
  then show ?thesis
    using assms by (simp add: StartDriveMonitoring_def Let_def)
qed

lemma StartDriveMonitoring_stopped:
  assumes "g_monitor_initialized s"
    and "find_drive (drives (g_monitor_context s)) (unat (drive_count (g_monitor_context s))) p 0 = Some i"
    and "\<not> is_monitoring (drives (g_monitor_context s) ! i)"
    and "unat (drive_count (g_monitor_context s)) < MONITOR_MAX_DRIVES"
  shows "drive_count (g_monitor_context (snd (StartDriveMonitoring max_path tick new_thread (Some p) s)))
           = drive_count (g_monitor_context s) + 1 \<and>
         drives (g_monitor_context (snd (StartDriveMonitoring max_path tick new_thread (Some p) s)))
           = (drives (g_monitor_context s))
               [unat (drive_count (g_monitor_context s)) := new_drive_data max_path tick p]"
proof -
  have "\<not> IsDriveBeingMonitored (Some p) s"
    using assms(1-3) by (simp add: IsDriveBeingMonitored_def Let_def)
  then show ?thesis
    using assms(1,4) by (simp add: StartDriveMonitoring_def Let_def)
qed

section \<open>Running mean\<close>

lemma new_drive_data_metrics:
  "average_metrics (new_drive_data mp t p) m = Some 0"
  "max_metrics (new_drive_data mp t p) m = 0"
  "min_metrics (new_drive_data mp t p) m = 1000"
  "data_points (new_drive_data mp t p) = 0"
  by (simp_all add: new_drive_data_def zero_drive_def)

lemma sample_values_sample_of: "sample_values (sample_of v) m = v"
  by (simp add: sample_values_def sample_of_def)

lemma round_16777217: "binary32_round 16777217 = Some 16777216"
  by code_simp

lemma round_16777216: "binary32_round 16777216 = Some 16777216"
  by code_simp

lemma round_16777218: "binary32_round 16777218 = Some 16777218"
  by code_simp

lemma round_quotient: "binary32_round (8388608 / 8388609) = Some (8388607 / 8388608)"
  by code_simp

text \<open>Claim C1 does not hold of the code. The running mean is recomputed in single
  precision from \<^verbatim>\<open>average * data_points\<close>, with a 32-bit counter, and leaves the
  arithmetic mean in two ways.
  \<^item> The counter wraps: after \<open>2^32\<close> updates of a fresh record, all with the value \<open>0\<close>,
    the divisor \<^verbatim>\<open>data_points + 1\<close> is \<open>0\<close> and the stored average is \<open>0 / 0\<close>, a
    NaN, where the mean of the values is \<open>0\<close>.
  \<^item> The arithmetic rounds: a record whose counter is 16777217 and whose average is
    \<open>1\<close>, updated with the value \<open>1\<close>, stores the average \<open>8388607 / 8388608\<close>: the
    counter \<open>2^24 + 1\<close> and the sum \<open>2^24 + 1\<close> both round to \<open>2^24\<close>, so the
    recurrence does not keep a mean of ones at \<open>1\<close>.\<close>

theorem running_mean_leaves_arithmetic_mean:
  "average_metrics
     (fst (run_updates 260 (replicate (2 ^ 32) (sample_of 0)) (new_drive_data 260 0 ''E:'', running_state)))
     MONITOR_METRIC_TEMPERATURE = None \<and>
   running_average (Some 1) 16777217 1 = Some (8388607 / 8388608)"
proof
  define n :: nat where "n = 2 ^ 32 - 1"
  define m where "m = MONITOR_METRIC_TEMPERATURE"
  define ds where
    "ds = run_updates 260 (replicate n (sample_of 0)) (new_drive_data 260 0 ''E:'', running_state)"
  have n_eq: "Suc n = 2 ^ 32" by (simp add: n_def)
  have split: "replicate (2 ^ 32) (sample_of 0) = replicate n (sample_of 0) @ [sample_of 0]"
    unfolding n_eq [symmetric] by (simp add: replicate_append_same)
  have b: "unat (data_points (new_drive_data 260 0 ''E:'')) + length (replicate n (sample_of 0)) < 2 ^ 32"
    by (simp add: new_drive_data_metrics n_def)
  have z: "\<forall>u \<in> set (replicate n (sample_of 0)). sample_values u m = 0"
    by (simp add: sample_values_sample_of)
  note R = run_updates_zero [OF new_drive_data_metrics(1) b z, where mp = 260 and s = running_state]
  have av: "average_metrics (fst ds) m = Some 0"
    using R by (simp add: ds_def)
  have "unat (data_points (fst ds)) = n"
    using R by (simp add: ds_def new_drive_data_metrics)
  then have "unat (data_points (fst ds)) = unat (4294967295 :: uint32_t)"
    by (simp add: n_def)
  then have dp: "data_points (fst ds) = 4294967295"
    by (simp only: word_unat_eq_iff)
  obtain d' s' where step: "run_updates 260 [sample_of 0] (fst ds, snd ds) = run_updates 260 [] (d', s')"
    and av': "average_metrics d' m
        = running_average (average_metrics (fst ds) m) (data_points (fst ds)) (sample_values (sample_of 0) m)"
    using run_updates_Cons_data [of 260 "sample_of 0" "[]" "fst ds" "snd ds" m] by blast
  have "average_metrics d' m = None"
    unfolding av' av dp sample_values_sample_of running_average_zero by simp
  then show "average_metrics
     (fst (run_updates 260 (replicate (2 ^ 32) (sample_of 0)) (new_drive_data 260 0 ''E:'', running_state)))
     MONITOR_METRIC_TEMPERATURE = None"
    unfolding split run_updates_append ds_def [symmetric] m_def [symmetric]
    using step by simp
next
  show "running_average (Some 1) 16777217 1 = Some (8388607 / 8388608)"
    by (simp add: running_average_def round_16777217 round_16777216 round_16777218 round_quotient)
qed

section \<open>Minimum and maximum\<close>

lemma Max_insert_below:
  assumes "finite S" and "x \<in> S" and "(a::rat) \<le> x"
  shows "Max (insert a S) = Max S"
proof -
  have "S \<noteq> {}" using assms(2) by auto
  then have "Max (insert a S) = max a (Max S)"
    using assms(1) by simp
  moreover have "a \<le> Max S"
    using assms by (meson Max_ge order_trans)
  ultimately show ?thesis by (simp add: max_def)
qed

lemma Min_insert_above:
  assumes "finite S" and "x \<in> S" and "x \<le> (a::rat)"
  shows "Min (insert a S) = Min S"
proof -
  have "S \<noteq> {}" using assms(2) by auto
  then have "Min (insert a S) = min a (Min S)"
    using assms(1) by simp
  moreover have "Min S \<le> a"
    using assms by (meson Min_le order_trans)
  ultimately show ?thesis by (simp add: min_def)
qed

text \<open>What the code stores, for a record as \<^verbatim>\<open>StartDriveMonitoring\<close> creates it and
  every sequence of updates: the stored maximum of a metric is the greatest of \<open>0\<close> and
  the values, and the stored minimum the least of \<open>1000\<close> and the values. Hence the
  stored maximum is the maximum of the values when some value is at least \<open>0\<close>, and the
  stored minimum is their minimum when some value is at most \<open>1000\<close>.\<close>

theorem min_max_with_sentinels:
  "max_metrics (fst (run_updates max_path us (new_drive_data max_path tick p, s))) m
     = Max (insert 0 (set (map (\<lambda>u. sample_values u m) us))) \<and>
   min_metrics (fst (run_updates max_path us (new_drive_data max_path tick p, s))) m
     = Min (insert 1000 (set (map (\<lambda>u. sample_values u m) us))) \<and>
   ((\<exists>u \<in> set us. 0 \<le> sample_values u m) \<longrightarrow>
      max_metrics (fst (run_updates max_path us (new_drive_data max_path tick p, s))) m
        = Max (set (map (\<lambda>u. sample_values u m) us))) \<and>
   ((\<exists>u \<in> set us. sample_values u m \<le> 1000) \<longrightarrow>
      min_metrics (fst (run_updates max_path us (new_drive_data max_path tick p, s))) m
        = Min (set (map (\<lambda>u. sample_values u m) us)))"
proof (intro conjI impI)
  show mx: "max_metrics (fst (run_updates max_path us (new_drive_data max_path tick p, s))) m
     = Max (insert 0 (set (map (\<lambda>u. sample_values u m) us)))"
    by (simp only: run_updates_max new_drive_data_metrics)
  show mn: "min_metrics (fst (run_updates max_path us (new_drive_data max_path tick p, s))) m
     = Min (insert 1000 (set (map (\<lambda>u. sample_values u m) us)))"
    by (simp only: run_updates_min new_drive_data_metrics)
  {
    assume "\<exists>u \<in> set us. 0 \<le> sample_values u m"
    then obtain u where u: "u \<in> set us" "0 \<le> sample_values u m" by blast
    then have "sample_values u m \<in> set (map (\<lambda>u. sample_values u m) us)" by simp
    then have "Max (insert 0 (set (map (\<lambda>u. sample_values u m) us)))
        = Max (set (map (\<lambda>u. sample_values u m) us))"
      using u(2) by (intro Max_insert_below [where x = "sample_values u m"]) simp_all
    then show "max_metrics (fst (run_updates max_path us (new_drive_data max_path tick p, s))) m
        = Max (set (map (\<lambda>u. sample_values u m) us))"
      using mx by simp
  }
  {
    assume "\<exists>u \<in> set us. sample_values u m \<le> 1000"
    then obtain u where u: "u \<in> set us" "sample_values u m \<le> 1000" by blast
    then have "sample_values u m \<in> set (map (\<lambda>u. sample_values u m) us)" by simp
    then have "Min (insert 1000 (set (map (\<lambda>u. sample_values u m) us)))
        = Min (set (map (\<lambda>u. sample_values u m) us))"
      using u(2) by (intro Min_insert_above [where x = "sample_values u m"]) simp_all
    then show "min_metrics (fst (run_updates max_path us (new_drive_data max_path tick p, s))) m
        = Min (set (map (\<lambda>u. sample_values u m) us))"
      using mn by simp
  }
qed

theorem min_max_with_sentinels_example:
  "max_metrics
     (fst (run_updates 260 [sample_of 40, sample_of 55] (new_drive_data 260 0 ''E:'', running_state)))
     MONITOR_METRIC_TEMPERATURE = 55 \<and>
   min_metrics
     (fst (run_updates 260 [sample_of 40, sample_of 55] (new_drive_data 260 0 ''E:'', running_state)))
     MONITOR_METRIC_TEMPERATURE = 40"
proof -
  have h1: "\<exists>u \<in> set [sample_of 40, sample_of 55]. 0 \<le> sample_values u MONITOR_METRIC_TEMPERATURE"
    by (simp add: sample_values_sample_of)
  have h2: "\<exists>u \<in> set [sample_of 40, sample_of 55]. sample_values u MONITOR_METRIC_TEMPERATURE \<le> 1000"
    by (simp add: sample_values_sample_of)
  note T = min_max_with_sentinels [of 260 "[sample_of 40, sample_of 55]" 0 "''E:''" running_state
      MONITOR_METRIC_TEMPERATURE]
  have "max_metrics
     (fst (run_updates 260 [sample_of 40, sample_of 55] (new_drive_data 260 0 ''E:'', running_state)))
     MONITOR_METRIC_TEMPERATURE
      = Max (set (map (\<lambda>u. sample_values u MONITOR_METRIC_TEMPERATURE) [sample_of 40, sample_of 55]))"
    using T h1 by blast
  moreover have "min_metrics
     (fst (run_updates 260 [sample_of 40, sample_of 55] (new_drive_data 260 0 ''E:'', running_state)))
     MONITOR_METRIC_TEMPERATURE
      = Min (set (map (\<lambda>u. sample_values u MONITOR_METRIC_TEMPERATURE) [sample_of 40, sample_of 55]))"
    using T h2 by blast
  ultimately show ?thesis
    by (simp add: sample_values_sample_of)
qed

text \<open>Claim C2 does not hold of the code. \<^verbatim>\<open>StartDriveMonitoring\<close> seeds the maximum
  with \<open>0\<close> and the minimum with \<open>1000\<close>, and \<^verbatim>\<open>UpdateDriveMetrics\<close> only replaces
  them by a greater or a smaller sample, so the first sample does not seed them: after
  the single sample \<open>-5\<close> the stored maximum is \<open>0\<close>, a value that was never observed,
  and after the single sample \<open>2000\<close> the stored minimum is \<open>1000\<close>.\<close>

theorem first_sample_does_not_seed_min_max:
  "sample_values (sample_of (- 5)) MONITOR_METRIC_TEMPERATURE = - 5 \<and>
   max_metrics
     (fst (run_updates 260 [sample_of (- 5)] (new_drive_data 260 0 ''E:'', running_state)))
     MONITOR_METRIC_TEMPERATURE = 0 \<and>
   sample_values (sample_of 2000) MONITOR_METRIC_READ_SPEED = 2000 \<and>
   min_metrics
     (fst (run_updates 260 [sample_of 2000] (new_drive_data 260 0 ''E:'', running_state)))
     MONITOR_METRIC_READ_SPEED = 1000"
  by (simp add: run_updates_max run_updates_min new_drive_data_metrics sample_values_sample_of
      del: run_updates.simps)

section \<open>Threshold policy and health prediction\<close>

text \<open>Claim C8. For the sample with no errors, no retries, no bad sectors, 1000 writes,
  average write and read speeds 25 and 20 and 500 hours of use (the remaining fields are
  arbitrary), \<^verbatim>\<open>CalculateHealthScore\<close> is \<open>1\<close> and \<^verbatim>\<open>EstimateDaysRemaining\<close> is
  \<open>730\<close>.\<close>

theorem healthy_sample_score:
  "CalculateHealthScore (Some
      \<lparr>total_writes = 1000, total_reads = r, hm_error_count = 0, retry_count = 0,
       bad_sectors = 0, write_speed_avg = 25, read_speed_avg = 20, temperature_avg = t,
       power_cycles = pc, hours_used = 500, hm_timestamp = ts\<rparr>) = 1 \<and>
   EstimateDaysRemaining (Some
      \<lparr>total_writes = 1000, total_reads = r, hm_error_count = 0, retry_count = 0,
       bad_sectors = 0, write_speed_avg = 25, read_speed_avg = 20, temperature_avg = t,
       power_cycles = pc, hours_used = 500, hm_timestamp = ts\<rparr>) = 730"
  by (simp add: CalculateHealthScore_def EstimateDaysRemaining_def Let_def)

text \<open>Claim C7. For a non-null path and a non-null result buffer, when no health data
  can be loaded, or the loaded context holds no metrics, \<^verbatim>\<open>PredictUSBHealth\<close> returns
  \<open>TRUE\<close> with the default prediction: probability \<open>0.1\<close>, 365 days, not critical, no
  warning, and a text saying that there is no data.\<close>

theorem PredictUSBHealth_no_history:
  "(LoadUSBHealthData read_file (Some p) = None \<longrightarrow>
      PredictUSBHealth read_file nn (Some p) (Some buf) =
        Some (True, Some
          \<lparr>failure_probability = 1 / 10,
           days_remaining = 365,
           algorithm_used = HEALTH_ALGO_NEURAL_NETWORK,
           recommendation = ''No historical data available. Drive appears healthy.'',
           prediction_is_critical = False,
           prediction_is_warning = False\<rparr>)) \<and>
   (LoadUSBHealthData read_file (Some p) = Some c \<and> metrics_count c = 0 \<longrightarrow>
      PredictUSBHealth read_file nn (Some p) (Some buf) =
        Some (True, Some
          \<lparr>failure_probability = 1 / 10,
           days_remaining = 365,
           algorithm_used = HEALTH_ALGO_NEURAL_NETWORK,
           recommendation = ''No metrics available. Drive appears healthy.'',
           prediction_is_critical = False,
           prediction_is_warning = False\<rparr>))"
  by (simp add: PredictUSBHealth_def)

theorem PredictUSBHealth_no_history_witness:
  "LoadUSBHealthData no_health_files (Some ''E:'') = None \<and>
   PredictUSBHealth no_health_files constant_network (Some ''E:'') (Some zero_prediction) =
     Some (True, Some
       \<lparr>failure_probability = 1 / 10,
        days_remaining = 365,
        algorithm_used = HEALTH_ALGO_NEURAL_NETWORK,
        recommendation = ''No historical data available. Drive appears healthy.'',
        prediction_is_critical = False,
        prediction_is_warning = False\<rparr>) \<and>
   LoadUSBHealthData empty_health_files (Some ''E:'') = Some empty_health_context \<and>
   metrics_count empty_health_context = 0 \<and>
   PredictUSBHealth empty_health_files constant_network (Some ''E:'') (Some zero_prediction) =
     Some (True, Some
       \<lparr>failure_probability = 1 / 10,
        days_remaining = 365,
        algorithm_used = HEALTH_ALGO_NEURAL_NETWORK,
        recommendation = ''No metrics available. Drive appears healthy.'',
        prediction_is_critical = False,
        prediction_is_warning = False\<rparr>)"
proof -
  have a: "LoadUSBHealthData no_health_files (Some ''E:'') = None"
    by (simp add: LoadUSBHealthData_def no_health_files_def)
  have b: "LoadUSBHealthData empty_health_files (Some ''E:'') = Some empty_health_context"
    by (simp add: LoadUSBHealthData_def empty_health_files_def)
  have c: "metrics_count empty_health_context = 0"
    by (simp add: empty_health_context_def)
  show ?thesis
    using PredictUSBHealth_no_history [of no_health_files "''E:''" constant_network zero_prediction
        empty_health_context]
      PredictUSBHealth_no_history [of empty_health_files "''E:''" constant_network zero_prediction
        empty_health_context] a b c
    by simp
qed

lemma GetMetricThreshold_nonneg: "0 \<le> GetMetricThreshold k"
  by (cases k) simp_all

text \<open>Claim C6, as amended. The severity is a function of the metric kind, the value and
  the two configured multipliers alone; a value equal to the base threshold times the
  critical multiplier is \<open>Critical\<close>; and, when the warning multiplier does not exceed
  the critical multiplier, a value below the base threshold times the warning multiplier
  is \<open>NoAlert\<close>, and the loop body of \<^verbatim>\<open>CheckForAlerts\<close> then raises no alert and
  changes nothing.\<close>

theorem evaluate_metric_thresholds:
  "(warning_threshold (g_monitor_config s) = warning_threshold (g_monitor_config s') \<and>
    critical_threshold (g_monitor_config s) = critical_threshold (g_monitor_config s') \<longrightarrow>
      evaluate_metric k v s = evaluate_metric k v s') \<and>
   evaluate_metric k (GetMetricThreshold k * critical_threshold (g_monitor_config s)) s = Critical \<and>
   (warning_threshold (g_monitor_config s) \<le> critical_threshold (g_monitor_config s) \<and>
    v < GetMetricThreshold k * warning_threshold (g_monitor_config s) \<longrightarrow>
      evaluate_metric k v s = NoAlert \<and>
      (current_metrics d k = v \<longrightarrow> check_metric max_path ticks (d, s) k = (d, s)))"
proof (intro conjI impI)
  assume "warning_threshold (g_monitor_config s) = warning_threshold (g_monitor_config s') \<and>
    critical_threshold (g_monitor_config s) = critical_threshold (g_monitor_config s')"
  then show "evaluate_metric k v s = evaluate_metric k v s'"
    by (simp add: evaluate_metric_def IsMetricCritical_def IsMetricWarning_def)
next
  show "evaluate_metric k (GetMetricThreshold k * critical_threshold (g_monitor_config s)) s = Critical"
    by (simp add: evaluate_metric_def IsMetricCritical_def)
next
  assume a: "warning_threshold (g_monitor_config s) \<le> critical_threshold (g_monitor_config s) \<and>
    v < GetMetricThreshold k * warning_threshold (g_monitor_config s)"
  have "GetMetricThreshold k * warning_threshold (g_monitor_config s)
      \<le> GetMetricThreshold k * critical_threshold (g_monitor_config s)"
    using a GetMetricThreshold_nonneg [of k] by (simp add: mult_left_mono)
  then have "v < GetMetricThreshold k * critical_threshold (g_monitor_config s)"
    using a by simp
  then show none: "evaluate_metric k v s = NoAlert"
    using a by (simp add: evaluate_metric_def IsMetricCritical_def IsMetricWarning_def)
  assume "current_metrics d k = v"
  then show "check_metric max_path ticks (d, s) k = (d, s)"
    using none by (simp add: check_metric_def)
qed

lemma running_config:
  "warning_threshold (g_monitor_config running_state) = 8 / 10"
  "critical_threshold (g_monitor_config running_state) = 9 / 10"
  by (simp_all add: running_state_fields default_config_def MONITOR_ALERT_THRESHOLD_def
      MONITOR_CRITICAL_THRESHOLD_def)

theorem evaluate_metric_thresholds_witness:
  "warning_threshold (g_monitor_config running_state) \<le> critical_threshold (g_monitor_config running_state) \<and>
   (47 :: rat) < GetMetricThreshold MONITOR_METRIC_TEMPERATURE * warning_threshold (g_monitor_config running_state) \<and>
   evaluate_metric MONITOR_METRIC_TEMPERATURE 47 running_state = NoAlert \<and>
   evaluate_metric MONITOR_METRIC_TEMPERATURE 54 running_state = Critical \<and>
   evaluate_metric MONITOR_METRIC_TEMPERATURE 47 full_log_state = NoAlert \<and>
   check_metric 260 (fst (snd (sample_of 47))) (warm_drive, running_state)
       MONITOR_METRIC_TEMPERATURE
     = (warm_drive, running_state)"
proof -
  have w: "warning_threshold (g_monitor_config running_state)
      \<le> critical_threshold (g_monitor_config running_state)"
    by (simp add: running_config)
  have v: "(47 :: rat) < GetMetricThreshold MONITOR_METRIC_TEMPERATURE
      * warning_threshold (g_monitor_config running_state)"
    by (simp add: running_config)
  have same: "warning_threshold (g_monitor_config running_state)
        = warning_threshold (g_monitor_config full_log_state) \<and>
      critical_threshold (g_monitor_config running_state)
        = critical_threshold (g_monitor_config full_log_state)"
    by (simp add: full_log_state_def)
  have c: "GetMetricThreshold MONITOR_METRIC_TEMPERATURE
      * critical_threshold (g_monitor_config running_state) = 54"
    by (simp add: running_config)
  have cur: "current_metrics warm_drive MONITOR_METRIC_TEMPERATURE = 47"
    by (simp add: warm_drive_def)
  note T = evaluate_metric_thresholds [of running_state full_log_state MONITOR_METRIC_TEMPERATURE 47
        warm_drive 260 "fst (snd (sample_of 47))"]
  have e1: "evaluate_metric MONITOR_METRIC_TEMPERATURE 47 running_state
      = evaluate_metric MONITOR_METRIC_TEMPERATURE 47 full_log_state"
    using T same by blast
  have e2: "evaluate_metric MONITOR_METRIC_TEMPERATURE 54 running_state = Critical"
    using T unfolding c by blast
  have e3: "evaluate_metric MONITOR_METRIC_TEMPERATURE 47 running_state = NoAlert \<and>
      check_metric 260 (fst (snd (sample_of 47))) (warm_drive, running_state)
          MONITOR_METRIC_TEMPERATURE
        = (warm_drive, running_state)"
    using T w v cur by blast
  have e4: "evaluate_metric MONITOR_METRIC_TEMPERATURE 47 full_log_state = NoAlert"
    using e1 e3 by simp
  show ?thesis
    using w v e2 e3 e4 by blast
qed

text \<open>The claim as stated, for every configuration, fails when the critical multiplier is
  below the warning multiplier: with warning \<open>0.8\<close> and critical \<open>0.5\<close>, the temperature
  \<open>40\<close> is below \<open>60 * 0.8 = 48\<close> and yet \<open>Critical\<close>.\<close>

theorem evaluate_metric_inverted_counterexample:
  "(40 :: rat) < GetMetricThreshold MONITOR_METRIC_TEMPERATURE
       * warning_threshold (g_monitor_config inverted_state) \<and>
   evaluate_metric MONITOR_METRIC_TEMPERATURE 40 inverted_state = Critical"
  by (simp add: inverted_state_def inverted_config_def InitRealTimeMonitor_def initial_state_def
      default_config_def MONITOR_ALERT_THRESHOLD_def evaluate_metric_def IsMetricCritical_def)

section \<open>The example states\<close>

text \<open>The states used as examples above satisfy the invariant; those built by calls of
  the interface are reachable.\<close>

lemma monitor_inv_full_log: "monitor_inv full_log_state"
  by (simp add: monitor_inv_def full_log_state_def running_state_fields zero_context_def
      MONITOR_METRIC_MAX_eq MONITOR_MAX_DRIVES_def Let_def)

lemma monitor_inv_full_registry: "monitor_inv full_registry_state"
  by (simp add: monitor_inv_def full_registry_state_def running_state_fields zero_context_def
      MONITOR_METRIC_MAX_eq MONITOR_MAX_DRIVES_def registry_paths_def Let_def)

lemma monitor_inv_started: "monitor_inv started_state"
  unfolding started_state_def by (intro monitor_inv_Start monitor_inv_running)

lemma reachable_started: "reachable started_state"
  unfolding started_state_def running_state_def
  by (intro reachable.intros)

lemma reachable_two_alerts: "reachable two_alert_state"
  unfolding two_alert_state_def running_state_def
  by (intro reachable.intros)

end
